theory Spec2Isabelle
  imports Main "HOL-Library.AList"
begin

section \<open>Python values, exceptions and strings\<close>

text \<open>
  The program is \<^verbatim>\<open>dupe_checker.py\<close>. Exceptions are values: every function of the
  source that can raise returns the exception beside its state. An exception carries
  the text that \<^verbatim>\<open>str(detail)\<close> gives. \<open>LibraryError\<close> stands for whatever a
  library or the operating system raises (a failed \<^verbatim>\<open>cksum\<close>, an unreadable file, an
  XML parse error); all of them are subclasses of \<^verbatim>\<open>Exception\<close>.
\<close>

datatype py_error =
    KeyError string
  | TypeError string
  | AttributeError string
  | UnboundLocalError string
  | NameError string
  | IndexError string
  | LibraryError string

fun str_exc :: "py_error \<Rightarrow> string" where
  "str_exc (KeyError k) = [CHR 0x27] @ k @ [CHR 0x27]"
| "str_exc (TypeError m) = m"
| "str_exc (AttributeError m) = m"
| "str_exc (UnboundLocalError m) = m"
| "str_exc (NameError m) = m"
| "str_exc (IndexError m) = m"
| "str_exc (LibraryError m) = m"

abbreviation NL :: char where "NL \<equiv> CHR 0x0A"
abbreviation DQ :: char where "DQ \<equiv> CHR 0x22"

text \<open>\<^verbatim>\<open>s.startswith(p)\<close>.\<close>

definition startswith :: "string \<Rightarrow> string \<Rightarrow> bool" where
  "startswith s p = (take (length p) s = p)"

text \<open>
  \<^verbatim>\<open>s.replace(old, new)\<close>: every occurrence of \<open>old\<close>, left to right and without
  overlap. With an empty \<open>old\<close> Python puts \<open>new\<close> before every character and at the
  end.
\<close>

function str_replace :: "string \<Rightarrow> string \<Rightarrow> string \<Rightarrow> string" where
  "str_replace old new [] = (if old = [] then new else [])"
| "str_replace old new (c # cs) =
     (if old = [] then new @ c # str_replace old new cs
      else if take (length old) (c # cs) = old
        then new @ str_replace old new (drop (length old) (c # cs))
      else c # str_replace old new cs)"
  by pat_completeness auto
termination
  by (relation "measure (\<lambda>(old, new, s). length s)") auto

text \<open>
  \<^verbatim>\<open>b.split(sep)\<close> where \<open>b\<close> is a bytes object and \<open>sep\<close> a string: the method
  wants a bytes-like separator and raises \<^verbatim>\<open>TypeError\<close>, whatever the bytes are.
\<close>

definition bytes_split :: "string \<Rightarrow> string \<Rightarrow> py_error + string list" where
  "bytes_split b sep = Inl (TypeError ''a bytes-like object is required, not str'')"

text \<open>How \<^verbatim>\<open>print\<close> and \<^verbatim>\<open>str\<close> show a value that may be \<^verbatim>\<open>None\<close>.\<close>

fun py_str :: "string option \<Rightarrow> string" where
  "py_str None = ''None''"
| "py_str (Some s) = s"

text \<open>
  \<^verbatim>\<open>a + b\<close> where \<open>a\<close> is a string and \<open>b\<close> an attribute that may be \<^verbatim>\<open>None\<close>:
  concatenation with \<^verbatim>\<open>None\<close> raises \<^verbatim>\<open>TypeError\<close>.
\<close>

fun str_add :: "string \<Rightarrow> string option \<Rightarrow> py_error + string" where
  "str_add a None = Inl (TypeError ''can only concatenate str (not NoneType) to str'')"
| "str_add a (Some b) = Inr (a @ b)"

section \<open>The data model\<close>

text \<open>
  \<^verbatim>\<open>itunes_key\<close> starts as the integer \<open>-1\<close> and is later assigned the text of an
  XML element, which is a string or \<^verbatim>\<open>None\<close>.
\<close>

datatype py_key = KeyInt int | KeyText "string option"

record FileAttributes =
  file_path :: "string option"
  file_name :: "string option"
  checksum :: "string option"
  itunes_key :: py_key
  itunes_file_path :: "string option"

definition FileAttributes_init :: FileAttributes where
  "FileAttributes_init =
     \<lparr>file_path = None, file_name = None, checksum = None,
      itunes_key = KeyInt (- 1), itunes_file_path = None\<rparr>"

text \<open>
  A Python dict keeps its keys in insertion order, and the order decides the order of
  the report rows and which member of a duplicate group is met last. So a dict is an
  association list with distinct keys: \<open>map_of\<close> reads it, \<open>AList.update\<close> assigns
  (in place for a key that is there, at the end for a new key).

  The members of \<^verbatim>\<open>checksums_dict\<close> are references to the objects held by
  \<^verbatim>\<open>file_path_dict\<close>. Every object is made for one key of \<^verbatim>\<open>file_path_dict\<close> and
  stored under that key only, so a reference is modelled as the item \<open>(key, object)\<close>,
  and the identity test \<^verbatim>\<open>is\<close> compares the keys.
\<close>

type_synonym store = "(string \<times> FileAttributes) list"
type_synonym member = "string \<times> FileAttributes"

datatype handle =
    fh_not_in_itunes_db
  | fh_missing_file
  | fh_file_in_itunes_db
  | fh_dupe_file_orig_in_itunes

datatype io_event =
    OpenWB string
  | PickleDump string store

text \<open>
  The state of a run: the two module-level dicts, the lines printed so far by the
  program's own \<^verbatim>\<open>print\<close> calls (what a child process writes to the streams it
  inherits is not among them), the report files opened by the current call of
  \<^verbatim>\<open>generate_reports\<close> with every \<^verbatim>\<open>write\<close> made through them (in order), and the
  snapshot file operations attempted.
\<close>

record prog_state =
  file_path_dict :: store
  checksums_dict :: "(string \<times> member list) list"
  stdout :: "string list"
  opened :: "(handle \<times> string) list"
  writes :: "(handle \<times> string) list"
  io_log :: "io_event list"

definition initial_state :: prog_state where
  "initial_state =
     \<lparr>file_path_dict = [], checksums_dict = [], stdout = [],
      opened = [], writes = [], io_log = []\<rparr>"

definition print_line :: "string \<Rightarrow> prog_state \<Rightarrow> prog_state" where
  "print_line s st = st\<lparr>stdout := stdout st @ [s]\<rparr>"

definition exception_line :: "py_error \<Rightarrow> string" where
  "exception_line detail = ''Exception: '' @ str_exc detail"

section \<open>The libraries and the operating system\<close>

text \<open>
  What the program calls but does not define is a parameter of the model: the
  result of each library call, as a function of its arguments. A call that can fail
  gives the exception it raises. The world is fixed during a run: a call with the same
  arguments gives the same result.
  \<^item> \<open>ntpath_split\<close>: \<^verbatim>\<open>ntpath.split\<close>, the pair (head, tail);
  \<^item> \<open>check_output\<close>: \<^verbatim>\<open>subprocess.check_output\<close>, the bytes the command wrote to
    its standard output (the call asks for no text mode), or the exception for a
    command that cannot be run or fails;
  \<^item> \<open>os_walk\<close>: the files found under a directory, each as
    \<^verbatim>\<open>os.path.join(root, file)\<close>, in the order in which their tasks take the lock;
  \<^item> \<open>et_parse\<close>: \<^verbatim>\<open>ET.parse(xml_file).getroot()\<close>;
  \<^item> \<open>unquote\<close>: \<^verbatim>\<open>urllib.request.unquote\<close> on a string;
  \<^item> \<open>os_path_exists\<close>, \<open>os_mkdir\<close>, \<open>os_path_basename\<close>;
  \<^item> \<open>open_w\<close>, \<open>open_wb\<close>: \<^verbatim>\<open>open(path, 'w')\<close> and \<^verbatim>\<open>open(path, 'wb')\<close>;
  \<^item> \<open>pickle_dump\<close>: \<^verbatim>\<open>pickle.dump(file_path_dict, fh)\<close> followed by
    \<^verbatim>\<open>fh.close()\<close>, for the file at the given path;
  \<^item> \<open>pickle_load\<close>: opening the cache file, \<^verbatim>\<open>pickle.load\<close> and the close;
  \<^item> \<open>parse_args\<close>: \<^verbatim>\<open>parser.parse_args\<close>, which returns the three options,
    leaves the process through \<^verbatim>\<open>sys.exit\<close> (a usage error, \<^verbatim>\<open>--help\<close>), or raises.
\<close>

record cli_args =
  itunes_dir :: string
  xml_file :: string
  cache_file :: string

datatype parse_result =
    Parsed cli_args
  | ParseExit int
  | ParseRaised py_error

datatype element =
  Element (elem_tag: string) (elem_text: "string option") (elem_children: "element list")

record env =
  ntpath_split :: "string \<Rightarrow> string \<times> string"
  check_output :: "string list \<Rightarrow> py_error + string"
  os_walk :: "string \<Rightarrow> string list"
  et_parse :: "string \<Rightarrow> py_error + element"
  unquote :: "string \<Rightarrow> string"
  os_path_exists :: "string \<Rightarrow> bool"
  os_mkdir :: "string \<Rightarrow> py_error option"
  os_path_basename :: "string \<Rightarrow> string"
  open_w :: "string \<Rightarrow> py_error option"
  open_wb :: "string \<Rightarrow> py_error option"
  pickle_dump :: "string \<Rightarrow> store \<Rightarrow> py_error option"
  pickle_load :: "string \<Rightarrow> py_error + store"
  parse_args :: "string list \<Rightarrow> parse_result"

section \<open>The scanner: \<^verbatim>\<open>path_leaf\<close>, \<^verbatim>\<open>checksum_file\<close>, \<^verbatim>\<open>process_file\<close>\<close>

text \<open>\<^verbatim>\<open>tail or ntpath.basename(head)\<close>; \<^verbatim>\<open>basename(p)\<close> is \<^verbatim>\<open>split(p)[1]\<close>.\<close>

definition path_leaf :: "env \<Rightarrow> string \<Rightarrow> string" where
  "path_leaf E path =
     (case ntpath_split E path of
        (head, tail) \<Rightarrow> if tail \<noteq> [] then tail else snd (ntpath_split E head))"

text \<open>
  The program imports \<^verbatim>\<open>urllib.request\<close>, so its interpreter is Python 3, where
  \<^verbatim>\<open>check_output\<close> returns bytes. Line 53 splits them by the string \<^verbatim>\<open>' '\<close>:
  \<^verbatim>\<open>checksum_file\<close> raises for every file, with the exception of the command when the
  command fails and with the \<^verbatim>\<open>TypeError\<close> of the split when it succeeds.
\<close>

definition checksum_file :: "env \<Rightarrow> string \<Rightarrow> py_error + string" where
  "checksum_file E filename =
     (case check_output E [''cksum'', filename] of
        Inl e \<Rightarrow> Inl e
      | Inr result \<Rightarrow>
          (case bytes_split result '' '' of
             Inl e \<Rightarrow> Inl e
           | Inr [] \<Rightarrow> Inl (IndexError ''list index out of range'')
           | Inr (cksum # _) \<Rightarrow> Inr cksum))"

text \<open>
  \<^verbatim>\<open>process_file\<close> has no handler: an exception of \<^verbatim>\<open>checksum_file\<close> leaves it
  at line 59, after the progress line and before the record is made. Lines 60 to 68
  are embedded as they are written, for a checksum that is returned.
\<close>

definition process_file :: "env \<Rightarrow> string \<Rightarrow> prog_state \<Rightarrow> prog_state \<times> py_error option" where
  "process_file E fname st =
     (let st1 = print_line (''<<<'' @ fname @ ''>>>'') st in
      case checksum_file E fname of
        Inl e \<Rightarrow> (st1, Some e)
      | Inr file_cksum \<Rightarrow>
          (let new_file = FileAttributes_init
                 \<lparr>file_path := Some fname,
                  file_name := Some (path_leaf E fname),
                  checksum := Some file_cksum\<rparr>
           in (st1\<lparr>file_path_dict := AList.update fname new_file (file_path_dict st1)\<rparr>,
               None)))"

text \<open>
  \<^verbatim>\<open>pool.apply_async(process_file, ...)\<close> keeps the exception of a task in a result
  object that the program never reads: the exception is dropped. The tasks change the
  store under one lock, so their effect on it is that of running them one after the
  other in the order in which they take the lock.
\<close>

fun run_tasks :: "env \<Rightarrow> string list \<Rightarrow> prog_state \<Rightarrow> prog_state" where
  "run_tasks E [] st = st"
| "run_tasks E (f # fs) st = run_tasks E fs (fst (process_file E f st))"

definition calculate_all_checksums :: "env \<Rightarrow> string \<Rightarrow> prog_state \<Rightarrow> prog_state" where
  "calculate_all_checksums E walk_dir st =
     run_tasks E (os_walk E walk_dir)
       (print_line (''--'' @ [NL]
          @ ''--Calculating File Checksums (This will take a LOOOOONG time)'' @ [NL]
          @ ''--'') st)"

section \<open>The catalog parser: \<^verbatim>\<open>read_itunes_library\<close>\<close>

text \<open>\<^verbatim>\<open>Element.iter()\<close>: the element itself, then its descendants in document order.\<close>

fun iter_elem :: "element \<Rightarrow> element list" where
  "iter_elem (Element t x cs) = Element t x cs # concat (map iter_elem cs)"

definition child_elems :: "string \<Rightarrow> element \<Rightarrow> element list" where
  "child_elems t e = filter (\<lambda>c. elem_tag c = t) (elem_children e)"

text \<open>\<^verbatim>\<open>xml_root.findall("./dict/dict/dict")\<close>.\<close>

definition findall_tracks :: "element \<Rightarrow> element list" where
  "findall_tracks xml_root =
     concat (map (child_elems ''dict'')
       (concat (map (child_elems ''dict'') (child_elems ''dict'' xml_root))))"

text \<open>
  Lines 91 to 97: \<^verbatim>\<open>this_dict\<close> from \<^verbatim>\<open>data.iter()\<close>. A key of the dict is the text
  of a \<^verbatim>\<open>key\<close> element, so it may be \<^verbatim>\<open>None\<close>; \<^verbatim>\<open>sub_key\<close> starts as the empty
  string.
\<close>

fun collect_attributes ::
  "element list \<Rightarrow> string option \<Rightarrow> (string option \<rightharpoonup> string option)
     \<Rightarrow> (string option \<rightharpoonup> string option)" where
  "collect_attributes [] sub_key this_dict = this_dict"
| "collect_attributes (attribute # rest) sub_key this_dict =
     (if elem_tag attribute = ''key''
      then collect_attributes rest (elem_text attribute) this_dict
      else collect_attributes rest sub_key (this_dict(sub_key \<mapsto> elem_text attribute)))"

text \<open>
  Lines 99 to 114, the merge of one catalog entry. \<^verbatim>\<open>this_dict['Location']\<close> and
  \<^verbatim>\<open>this_dict['Name']\<close> raise \<^verbatim>\<open>KeyError\<close> for a missing key, \<^verbatim>\<open>unquote(None)\<close>
  raises \<^verbatim>\<open>TypeError\<close>; the handler of line 113 prints the exception and the entry is
  skipped. Under the lock, a missing record is created empty, and then the two catalog
  fields of the record under the key are assigned.
\<close>

definition merge_entry ::
  "env \<Rightarrow> py_key \<Rightarrow> (string option \<rightharpoonup> string option) \<Rightarrow> prog_state \<Rightarrow> prog_state" where
  "merge_entry E cur_key this_dict st =
     (case this_dict (Some ''Location'') of
        None \<Rightarrow> print_line (exception_line (KeyError ''Location'')) st
      | Some None \<Rightarrow>
          print_line (exception_line (TypeError ''argument of type NoneType is not iterable'')) st
      | Some (Some location) \<Rightarrow>
          (let unquoted_path = str_replace ''file://'' [] (unquote E location) in
           case this_dict (Some ''Name'') of
             None \<Rightarrow> print_line (exception_line (KeyError ''Name'')) st
           | Some name \<Rightarrow>
               (let st1 = print_line (py_str name @ '' '' @ location @ '' '' @ unquoted_path) st;
                    st2 = (if map_of (file_path_dict st1) unquoted_path = None
                           then (print_line (''WARNING: '' @ unquoted_path
                                   @ '' was in iTunes Library, but not in file system'') st1)
                                \<lparr>file_path_dict :=
                                   AList.update unquoted_path FileAttributes_init
                                     (file_path_dict st1)\<rparr>
                           else st1)
                in case map_of (file_path_dict st2) unquoted_path of
                     None \<Rightarrow> print_line (exception_line (KeyError unquoted_path)) st2
                   | Some file_data \<Rightarrow>
                       st2\<lparr>file_path_dict :=
                            AList.update unquoted_path
                              (file_data\<lparr>itunes_file_path := Some unquoted_path,
                                         itunes_key := cur_key\<rparr>)
                              (file_path_dict st2)\<rparr>)))"

text \<open>
  Lines 87 to 114, the loop over \<^verbatim>\<open>this_node.iter()\<close>: a \<^verbatim>\<open>key\<close> element sets
  \<^verbatim>\<open>cur_key\<close>, a \<^verbatim>\<open>dict\<close> element is merged, anything else is passed over.
\<close>

fun node_loop :: "env \<Rightarrow> element list \<Rightarrow> py_key \<Rightarrow> prog_state \<Rightarrow> py_key \<times> prog_state" where
  "node_loop E [] cur_key st = (cur_key, st)"
| "node_loop E (data # rest) cur_key st =
     (if elem_tag data = ''key'' then node_loop E rest (KeyText (elem_text data)) st
      else if elem_tag data = ''dict'' then
        node_loop E rest cur_key
          (merge_entry E cur_key
             (collect_attributes (iter_elem data) (Some []) Map.empty) st)
      else node_loop E rest cur_key st)"

text \<open>Line 86, the loop over the track nodes; \<^verbatim>\<open>cur_key\<close> lives across them.\<close>

fun tracks_loop :: "env \<Rightarrow> element list \<Rightarrow> py_key \<Rightarrow> prog_state \<Rightarrow> py_key \<times> prog_state" where
  "tracks_loop E [] cur_key st = (cur_key, st)"
| "tracks_loop E (this_node # rest) cur_key st =
     (case node_loop E (iter_elem this_node) cur_key st of
        (cur_key', st') \<Rightarrow> tracks_loop E rest cur_key' st')"

text \<open>
  A catalog that cannot be parsed is printed as an exception and the function returns
  (line 116): the store stays as the scanner left it.
\<close>

definition read_itunes_library :: "env \<Rightarrow> string \<Rightarrow> prog_state \<Rightarrow> prog_state" where
  "read_itunes_library E xml_path st =
     (case et_parse E xml_path of
        Inl detail \<Rightarrow> print_line (exception_line detail) st
      | Inr xml_root \<Rightarrow> snd (tracks_loop E (findall_tracks xml_root) (KeyInt (- 1)) st))"

section \<open>The duplicate grouper: \<^verbatim>\<open>create_dupes_map\<close>\<close>

text \<open>
  For every record with a checksum: an absent checksum gets an empty list (a new key,
  at the end of the dict), and then the record is appended to the list of its checksum.
  \<^verbatim>\<open>checksums_dict\<close> is a module-level dict and the function does not empty it first.
\<close>

fun create_dupes_loop ::
  "store \<Rightarrow> (string \<times> member list) list \<Rightarrow> (string \<times> member list) list" where
  "create_dupes_loop [] cd = cd"
| "create_dupes_loop ((fname, file_data) # rest) cd =
     (case checksum file_data of
        None \<Rightarrow> create_dupes_loop rest cd
      | Some c \<Rightarrow>
          create_dupes_loop rest
            (AList.update c
               ((case map_of cd c of None \<Rightarrow> [] | Some members \<Rightarrow> members)
                  @ [(fname, file_data)])
               cd))"

definition create_dupes_map :: "prog_state \<Rightarrow> prog_state" where
  "create_dupes_map st =
     st\<lparr>checksums_dict := create_dupes_loop (file_path_dict st) (checksums_dict st)\<rparr>"

section \<open>The report generator: \<^verbatim>\<open>generate_reports\<close>\<close>

text \<open>Lines 125 to 128: the four files opened for writing, in this order.\<close>

definition report_files :: "string \<Rightarrow> (handle \<times> string) list" where
  "report_files report_path =
     [(fh_not_in_itunes_db, report_path @ ''not_in_itunes.csv''),
      (fh_missing_file, report_path @ ''not_in_itunes.csv''),
      (fh_file_in_itunes_db, report_path @ ''file_in_itunes.csv''),
      (fh_dupe_file_orig_in_itunes, report_path @ ''dupe_file_orig_in_itunes.csv'')]"

fun open_all :: "env \<Rightarrow> (handle \<times> string) list \<Rightarrow> prog_state \<Rightarrow> prog_state \<times> py_error option" where
  "open_all E [] st = (st, None)"
| "open_all E ((h, p) # rest) st =
     (case open_w E p of
        Some e \<Rightarrow> (st, Some e)
      | None \<Rightarrow> open_all E rest (st\<lparr>opened := opened st @ [(h, p)]\<rparr>))"

text \<open>
  \<^verbatim>\<open>'"' + name + '","' + path + '"'\<close>, evaluated from the left: the first attribute
  that is \<^verbatim>\<open>None\<close> raises.
\<close>

definition quoted_pair :: "string option \<Rightarrow> string option \<Rightarrow> py_error + string" where
  "quoted_pair name path =
     (case str_add [DQ] name of
        Inl e \<Rightarrow> Inl e
      | Inr a \<Rightarrow>
          (case str_add (a @ [DQ] @ '','' @ [DQ]) path of
             Inl e \<Rightarrow> Inl e
           | Inr b \<Rightarrow> Inr (b @ [DQ])))"

text \<open>Lines 135 to 140: the handle one record is written to, and its row.\<close>

definition classify_item :: "env \<Rightarrow> FileAttributes \<Rightarrow> py_error + handle \<times> string" where
  "classify_item E file_data =
     (case itunes_file_path file_data of
        None \<Rightarrow>
          (case quoted_pair (file_name file_data) (file_path file_data) of
             Inl e \<Rightarrow> Inl e
           | Inr row \<Rightarrow> Inr (fh_not_in_itunes_db, row @ [NL]))
      | Some itunes_path \<Rightarrow>
          (case file_path file_data of
             None \<Rightarrow>
               Inr (fh_missing_file,
                    [DQ] @ path_leaf E itunes_path @ [DQ] @ '','' @ [DQ] @ itunes_path @ [DQ, NL])
           | Some fpath \<Rightarrow>
               (case quoted_pair (file_name file_data) (Some fpath) of
                  Inl e \<Rightarrow> Inl e
                | Inr row \<Rightarrow> Inr (fh_file_in_itunes_db, row @ [NL]))))"

fun classify_loop :: "env \<Rightarrow> store \<Rightarrow> prog_state \<Rightarrow> prog_state \<times> py_error option" where
  "classify_loop E [] st = (st, None)"
| "classify_loop E ((fname, file_data) # rest) st =
     (case classify_item E file_data of
        Inl e \<Rightarrow> (st, Some e)
      | Inr w \<Rightarrow> classify_loop E rest (st\<lparr>writes := writes st @ [w]\<rparr>))"

text \<open>
  Lines 153 to 159, the first loop over a group: the member with a catalog path met
  last becomes \<^verbatim>\<open>file_in_itunes\<close>; each further one is announced first.
\<close>

fun find_in_itunes ::
  "member list \<Rightarrow> member option \<Rightarrow> prog_state \<Rightarrow> (member option \<times> prog_state) \<times> py_error option" where
  "find_in_itunes [] file_in_itunes st = ((file_in_itunes, st), None)"
| "find_in_itunes (cur_file # rest) file_in_itunes st =
     (case itunes_file_path (snd cur_file) of
        None \<Rightarrow> find_in_itunes rest file_in_itunes st
      | Some cur_itunes_path \<Rightarrow>
          (case file_in_itunes of
             None \<Rightarrow> find_in_itunes rest (Some cur_file) st
           | Some prev \<Rightarrow>
               (case str_add ''Duplicate files found in the iTunes library: ''
                       (file_name (snd prev)) of
                  Inl e \<Rightarrow> ((file_in_itunes, st), Some e)
                | Inr msg \<Rightarrow>
                    find_in_itunes rest (Some cur_file)
                      (print_line (msg @ '' and '' @ cur_itunes_path) st))))"

text \<open>
  Lines 160 to 164, the second loop: without a \<^verbatim>\<open>file_in_itunes\<close> every member is
  printed; with one, every member that is not that object is written to the fourth
  file, without a line end.
\<close>

fun report_dupes ::
  "member list \<Rightarrow> member option \<Rightarrow> prog_state \<Rightarrow> prog_state \<times> py_error option" where
  "report_dupes [] file_in_itunes st = (st, None)"
| "report_dupes (cur_file # rest) file_in_itunes st =
     (case file_in_itunes of
        None \<Rightarrow>
          (case file_path (snd cur_file) of
             None \<Rightarrow> (st, Some (TypeError ''unsupported operand type(s) for +: NoneType and str''))
           | Some p \<Rightarrow>
               report_dupes rest file_in_itunes
                 (print_line (p @ '' is a duplicate, but does not have a copy in iTunes DB'') st))
      | Some orig \<Rightarrow>
          (if fst orig \<noteq> fst cur_file then
             (case quoted_pair (file_name (snd cur_file)) (file_path (snd cur_file)) of
                Inl e \<Rightarrow> (st, Some e)
              | Inr row \<Rightarrow>
                  report_dupes rest file_in_itunes
                    (st\<lparr>writes := writes st @ [(fh_dupe_file_orig_in_itunes, row)]\<rparr>))
           else report_dupes rest file_in_itunes st))"

definition dupe_group :: "member list \<Rightarrow> prog_state \<Rightarrow> prog_state \<times> py_error option" where
  "dupe_group file_data_array st =
     (case find_in_itunes file_data_array None st of
        ((file_in_itunes, st1), Some e) \<Rightarrow> (st1, Some e)
      | ((file_in_itunes, st1), None) \<Rightarrow> report_dupes file_data_array file_in_itunes st1)"

text \<open>
  Line 152 calls \<^verbatim>\<open>file_data_array.len()\<close>. A Python list has no method \<^verbatim>\<open>len\<close>
  (the length is \<^verbatim>\<open>len(file_data_array)\<close>): the attribute lookup raises
  \<^verbatim>\<open>AttributeError\<close> for every list.
\<close>

definition list_len_method :: "'a list \<Rightarrow> py_error + nat" where
  "list_len_method xs = Inl (AttributeError ''list object has no attribute len'')"

fun dupes_loop ::
  "(string \<times> member list) list \<Rightarrow> prog_state \<Rightarrow> prog_state \<times> py_error option" where
  "dupes_loop [] st = (st, None)"
| "dupes_loop ((cksum, file_data_array) # rest) st =
     (case list_len_method file_data_array of
        Inl e \<Rightarrow> (st, Some e)
      | Inr n \<Rightarrow>
          (if n > 1 then
             (case dupe_group file_data_array st of
                (st1, Some e) \<Rightarrow> (st1, Some e)
              | (st1, None) \<Rightarrow> dupes_loop rest st1)
           else dupes_loop rest st))"

text \<open>
  The handlers are those of an interpreter that has \<^verbatim>\<open>urllib.request\<close> (Python 3).
  The handler of line 141 reads \<^verbatim>\<open>details.message\<close>, which an exception does not
  have there: an exception in the first loop ends the function with \<^verbatim>\<open>AttributeError\<close>.
  The handler of line 165 reads \<^verbatim>\<open>details\<close>, a local name that is bound only while
  the handler of line 141 runs: an exception in the second part ends the function
  with \<^verbatim>\<open>UnboundLocalError\<close>. The files are opened anew by every call, so the call
  starts with no file opened and nothing written.
\<close>

definition generate_reports :: "env \<Rightarrow> string \<Rightarrow> prog_state \<Rightarrow> prog_state \<times> py_error option" where
  "generate_reports E report_path st0 =
     (let st = st0\<lparr>opened := [], writes := []\<rparr> in
      case (if os_path_exists E report_path then None else os_mkdir E report_path) of
        Some e \<Rightarrow> (st, Some e)
      | None \<Rightarrow>
          (case open_all E (report_files report_path) (create_dupes_map st) of
             (st2, Some e) \<Rightarrow> (st2, Some e)
           | (st2, None) \<Rightarrow>
               (case classify_loop E (file_path_dict st2) st2 of
                  (st3, Some e) \<Rightarrow>
                    (st3, Some (AttributeError ''TypeError object has no attribute message''))
                | (st3, None) \<Rightarrow>
                    (case dupes_loop (checksums_dict st3) st3 of
                       (st4, Some e) \<Rightarrow>
                         (st4, Some (UnboundLocalError
                            ''cannot access local variable details where it is not associated with a value''))
                     | (st4, None) \<Rightarrow> (st4, None)))))"

section \<open>The main program\<close>

text \<open>
  Lines 193 to 196: the arguments that do not start with \<^verbatim>\<open>#\<close>, \<^verbatim>\<open>--#\<close> or
  \<^verbatim>\<open>-#\<close>, in their order.
\<close>

fun good_args :: "string list \<Rightarrow> string list" where
  "good_args [] = []"
| "good_args (arg # rest) =
     (if \<not> startswith arg ''#'' \<and> \<not> startswith arg ''--#'' \<and> \<not> startswith arg ''-#''
      then arg # good_args rest
      else good_args rest)"

text \<open>
  Lines 218 to 225: the snapshot. Its path is the catalog path with every \<^verbatim>\<open>.xml\<close>
  replaced by \<^verbatim>\<open>.pkl\<close> and then every space by an underscore. Whatever the opening,
  the dump or the close raises is printed by the handler of line 224.
\<close>

definition save_cache :: "env \<Rightarrow> string \<Rightarrow> prog_state \<Rightarrow> prog_state" where
  "save_cache E xml_path st =
     (let cache_path = str_replace '' '' ''_'' (str_replace ''.xml'' ''.pkl'' xml_path);
          st1 = print_line (''Saving cached data to '' @ cache_path) st;
          st2 = st1\<lparr>io_log := io_log st1 @ [OpenWB cache_path]\<rparr>
      in case open_wb E cache_path of
           Some detail \<Rightarrow> print_line (exception_line detail) st2
         | None \<Rightarrow>
             (let st3 = st2\<lparr>io_log := io_log st2 @ [PickleDump cache_path (file_path_dict st2)]\<rparr>
              in case pickle_dump E cache_path (file_path_dict st3) of
                   Some detail \<Rightarrow> print_line (exception_line detail) st3
                 | None \<Rightarrow> st3))"

definition report_directory :: "env \<Rightarrow> string \<Rightarrow> string" where
  "report_directory E xml_path =
     ''./output_''
       @ str_replace '' '' ''_'' (str_replace ''.'' ''_'' (os_path_basename E xml_path))
       @ ''/''"

datatype exit_status = Finished | Exited int | Uncaught py_error

fun finish :: "prog_state \<times> py_error option \<Rightarrow> prog_state \<times> exit_status" where
  "finish (st, None) = (st, Finished)"
| "finish (st, Some e) = (st, Uncaught e)"

text \<open>
  \<^verbatim>\<open>parser.print_help()\<close> is modelled as one printed line, the parser's description.
  When \<^verbatim>\<open>parse_args\<close> raises, the three names of lines 199 to 201 are never
  assigned and line 206 raises \<^verbatim>\<open>NameError\<close>; when it leaves through \<^verbatim>\<open>sys.exit\<close>,
  no handler of the program catches that. A cache file that cannot be loaded ends the
  run with \<^verbatim>\<open>exit(-1)\<close>.
\<close>

definition main :: "env \<Rightarrow> string list \<Rightarrow> prog_state \<times> exit_status" where
  "main E argv =
     (case parse_args E (good_args argv) of
        ParseExit n \<Rightarrow> (initial_state, Exited n)
      | ParseRaised detail \<Rightarrow>
          (print_line ''Search iTunes XML database and file system for duplicate/missing files''
             (print_line (exception_line detail) initial_state),
           Uncaught (NameError ''name walk_dir is not defined''))
      | Parsed args \<Rightarrow>
          (let walk_dir = (if itunes_dir args = []
                 then ''/Volumes/Raid/iTunes/iTunes Music/Music/Wynonna Judd/Wynonna/''
                 else itunes_dir args);
               xml_path = (if xml_file args = []
                 then ''/Volumes/Raid/Library copy.xml'' else xml_file args);
               st1 = print_line (''iTunes Library root directory: '' @ walk_dir) initial_state;
               st2 = print_line (''XML Library file: '' @ xml_path) st1
           in if cache_file args = [] then
                finish (generate_reports E (report_directory E xml_path)
                  (save_cache E xml_path
                     (read_itunes_library E xml_path
                        (calculate_all_checksums E walk_dir st2))))
              else
                (let st3 = print_line (''Loading cached data from: '' @ cache_file args) st2 in
                 case pickle_load E (cache_file args) of
                   Inl detail \<Rightarrow>
                     (print_line (''Exception while loading cached data from ''
                        @ cache_file args @ '' '' @ str_exc detail) st3,
                      Exited (- 1))
                 | Inr loaded \<Rightarrow>
                     finish (generate_reports E (report_directory E xml_path)
                       (st3\<lparr>file_path_dict := loaded\<rparr>)))))"

section \<open>Properties of the store and example runs\<close>

text \<open>
  The invariant of the data model: a record has a file-system path or a catalog path.
\<close>

definition record_ok :: "FileAttributes \<Rightarrow> bool" where
  "record_ok r = (file_path r \<noteq> None \<or> itunes_file_path r \<noteq> None)"

definition store_inv :: "prog_state \<Rightarrow> bool" where
  "store_inv st = list_all (\<lambda>(k, r). record_ok r) (file_path_dict st)"

text \<open>
  What the two writers make of a record, beyond the invariant: a record without a
  catalog path has a file-system path, a record with a file-system path has a name, and
  a record with a checksum has a file-system path. The rows of such records can be
  formed without an exception.
\<close>

definition record_wf :: "FileAttributes \<Rightarrow> bool" where
  "record_wf r =
     ((itunes_file_path r = None \<longrightarrow> file_path r \<noteq> None) \<and>
      (file_path r \<noteq> None \<longrightarrow> file_name r \<noteq> None) \<and>
      (checksum r \<noteq> None \<longrightarrow> file_path r \<noteq> None))"

definition store_wf :: "store \<Rightarrow> bool" where
  "store_wf d = list_all (\<lambda>(k, r). record_wf r) d"

text \<open>The output a record belongs to, by lines 135 to 140.\<close>

definition classification :: "FileAttributes \<Rightarrow> handle" where
  "classification r =
     (if itunes_file_path r = None then fh_not_in_itunes_db
      else if file_path r = None then fh_missing_file
      else fh_file_in_itunes_db)"

text \<open>The members of a group that have a catalog path.\<close>

definition catalog_linked :: "member list \<Rightarrow> member list" where
  "catalog_linked ms = filter (\<lambda>m. itunes_file_path (snd m) \<noteq> None) ms"

text \<open>
  Two records that differ at most in the two fields the catalog parser assigns.
\<close>

definition same_but_catalog_fields :: "FileAttributes \<Rightarrow> FileAttributes \<Rightarrow> bool" where
  "same_but_catalog_fields r r' =
     (r' = r\<lparr>itunes_file_path := itunes_file_path r', itunes_key := itunes_key r'\<rparr>)"

text \<open>
  An example world. The music directory \<^verbatim>\<open>/m\<close> holds files of the same content,
  \<^verbatim>\<open>a.mp3\<close> and \<^verbatim>\<open>b.mp3\<close> among them; the catalog \<^verbatim>\<open>/L.xml\<close> has one track,
  located at \<^verbatim>\<open>file:///m/b.mp3\<close>. \<open>split_at_last_slash\<close> is what \<^verbatim>\<open>ntpath.split\<close>
  gives for such paths, and \<^verbatim>\<open>unquote\<close> leaves a string without \<^verbatim>\<open>%\<close> as it is.
\<close>

definition split_at_last_slash :: "string \<Rightarrow> string \<times> string" where
  "split_at_last_slash p =
     (let tail = rev (takeWhile (\<lambda>c. c \<noteq> CHR ''/'') (rev p))
      in (butlast (take (length p - length tail) p), tail))"

definition example_catalog :: element where
  "example_catalog =
     Element ''plist'' None
       [Element ''dict'' None
          [Element ''key'' (Some ''Tracks'') [],
           Element ''dict'' None
             [Element ''key'' (Some ''101'') [],
              Element ''dict'' None
                [Element ''key'' (Some ''Name'') [],
                 Element ''string'' (Some ''B'') [],
                 Element ''key'' (Some ''Location'') [],
                 Element ''string'' (Some ''file:///m/b.mp3'') []]]]]"

text \<open>
  Records with a path, a name and a checksum, as items of the store: \<^verbatim>\<open>a.mp3\<close> is not
  in the catalog, \<^verbatim>\<open>b.mp3\<close> and \<^verbatim>\<open>c.mp3\<close> are. The scanner of this program cannot
  make them (it gets no checksum); the program receives them from a cache file, whose
  content \<^verbatim>\<open>pickle.load\<close> hands over as the store.
\<close>

definition member_a :: member where
  "member_a =
     (''/m/a.mp3'',
      \<lparr>file_path = Some ''/m/a.mp3'', file_name = Some ''a.mp3'',
         checksum = Some ''4038471504'', itunes_key = KeyInt (- 1),
         itunes_file_path = None\<rparr>)"

definition member_b :: member where
  "member_b =
     (''/m/b.mp3'',
      \<lparr>file_path = Some ''/m/b.mp3'', file_name = Some ''b.mp3'',
         checksum = Some ''4038471504'', itunes_key = KeyInt (- 1),
         itunes_file_path = Some ''/m/b.mp3''\<rparr>)"

definition member_c :: member where
  "member_c =
     (''/m/c.mp3'',
      \<lparr>file_path = Some ''/m/c.mp3'', file_name = Some ''c.mp3'',
         checksum = Some ''4038471504'', itunes_key = KeyText (Some ''Location''),
         itunes_file_path = Some ''/m/c.mp3''\<rparr>)"

text \<open>The store held by the cache file \<^verbatim>\<open>/L.pkl\<close> of the example world.\<close>

definition cached_store :: store where
  "cached_store = [member_a, member_b]"

definition example_env :: env where
  "example_env =
     \<lparr>ntpath_split = split_at_last_slash,
      check_output = (\<lambda>args.
        if args = [''cksum'', ''/m/a.mp3''] then Inr ''4038471504 5 /m/a.mp3''
        else if args = [''cksum'', ''/m/b.mp3''] then Inr ''4038471504 5 /m/b.mp3''
        else Inl (LibraryError ''cksum returned non-zero exit status 1'')),
      os_walk = (\<lambda>d. if d = ''/m'' then [''/m/a.mp3'', ''/m/b.mp3''] else []),
      et_parse = (\<lambda>p.
        if p = ''/L.xml'' then Inr example_catalog
        else Inl (LibraryError ''No such file or directory'')),
      unquote = (\<lambda>s. s),
      os_path_exists = (\<lambda>p. False),
      os_mkdir = (\<lambda>p. None),
      os_path_basename = (\<lambda>p. rev (takeWhile (\<lambda>c. c \<noteq> CHR ''/'') (rev p))),
      open_w = (\<lambda>p. None),
      open_wb = (\<lambda>p. None),
      pickle_dump = (\<lambda>p d. None),
      pickle_load = (\<lambda>p.
        if p = ''/L.pkl'' then Inr cached_store
        else Inl (LibraryError ''No such file or directory'')),
      parse_args = (\<lambda>args.
        if args = [''--xml'', ''/L.xml'', ''--dir'', ''/m'']
        then Parsed \<lparr>itunes_dir = ''/m'', xml_file = ''/L.xml'', cache_file = []\<rparr>
        else if args = [''--xml'', ''/L.xml'', ''--cache'', ''/L.pkl'']
        then Parsed \<lparr>itunes_dir = [], xml_file = ''/L.xml'', cache_file = ''/L.pkl''\<rparr>
        else ParseExit 2)\<rparr>"


text \<open>
  The state in which a run with \<^verbatim>\<open>--cache /L.pkl\<close> has its store: two files of one
  content, one of them in the catalog.
\<close>

definition reconciled_state :: prog_state where
  "reconciled_state = initial_state\<lparr>file_path_dict := cached_store\<rparr>"

text \<open>
  The catalog read into an empty store, which is also the store the scan leaves: the
  record of a catalog entry without a record from the disk.
\<close>

definition catalog_only_state :: prog_state where
  "catalog_only_state = read_itunes_library example_env ''/L.xml'' initial_state"

section \<open>What the loops compute\<close>

text \<open>
  The first loop of \<^verbatim>\<open>generate_reports\<close> as a function of the store alone: the
  writes it makes, in order, and the exception that ends it, if any.
\<close>

fun classify_rows :: "env \<Rightarrow> store \<Rightarrow> (handle \<times> string) list \<times> py_error option" where
  "classify_rows E [] = ([], None)"
| "classify_rows E ((fname, file_data) # rest) =
     (case classify_item E file_data of
        Inl e \<Rightarrow> ([], Some e)
      | Inr w \<Rightarrow> (case classify_rows E rest of (ws, e) \<Rightarrow> (w # ws, e)))"

text \<open>The writes made through the first three handles.\<close>

definition outputs_1_to_3 :: "(handle \<times> string) list \<Rightarrow> (handle \<times> string) list" where
  "outputs_1_to_3 ws = filter (\<lambda>w. fst w \<noteq> fh_dupe_file_orig_in_itunes) ws"

text \<open>
  The writes of a whole call through the first three handles, as a function of the
  store: none when the directory or one of the files cannot be made.
\<close>

definition classified_rows :: "env \<Rightarrow> string \<Rightarrow> store \<Rightarrow> (handle \<times> string) list" where
  "classified_rows E rp d =
     (if (if os_path_exists E rp then None else os_mkdir E rp) = None
         \<and> snd (open_all E (report_files rp) initial_state) = None
      then fst (classify_rows E d) else [])"

text \<open>The text of an attribute that is set.\<close>

fun text_of :: "string option \<Rightarrow> string" where
  "text_of None = []"
| "text_of (Some s) = s"

text \<open>
  The row of a record in the output of its classification: name and path from the
  file system, or from the catalog path when there is no file.
\<close>

definition report_row :: "env \<Rightarrow> FileAttributes \<Rightarrow> string" where
  "report_row E r =
     (if file_path r = None
      then [DQ] @ path_leaf E (text_of (itunes_file_path r)) @ [DQ] @ '','' @ [DQ]
             @ text_of (itunes_file_path r) @ [DQ, NL]
      else [DQ] @ text_of (file_name r) @ [DQ] @ '','' @ [DQ]
             @ text_of (file_path r) @ [DQ, NL])"

text \<open>The records with a given checksum, in the order of the store.\<close>

definition members_with :: "string \<Rightarrow> store \<Rightarrow> member list" where
  "members_with c d = filter (\<lambda>(k, r). checksum r = Some c) d"

text \<open>The snapshot path of line 219, and what the attempt to write it raises.\<close>

definition snapshot_path :: "string \<Rightarrow> string" where
  "snapshot_path xml_path = str_replace '' '' ''_'' (str_replace ''.xml'' ''.pkl'' xml_path)"

definition snapshot_error :: "env \<Rightarrow> string \<Rightarrow> store \<Rightarrow> py_error option" where
  "snapshot_error E p d =
     (case open_wb E p of Some detail \<Rightarrow> Some detail | None \<Rightarrow> pickle_dump E p d)"

section \<open>Further example states\<close>

text \<open>
  Stores as a cache file can hold them. In the first, \<^verbatim>\<open>a.mp3\<close> is on disk and not in
  the catalog, and the catalog's \<^verbatim>\<open>b.mp3\<close> is not on disk.
\<close>

definition missing_state :: prog_state where
  "missing_state =
     initial_state\<lparr>file_path_dict :=
       [member_a,
        (''/m/b.mp3'',
         \<lparr>file_path = None, file_name = None, checksum = None,
            itunes_key = KeyInt (- 1), itunes_file_path = Some ''/m/b.mp3''\<rparr>)]\<rparr>"

text \<open>Only \<^verbatim>\<open>a.mp3\<close>: one record, whose checksum no other record has.\<close>

definition single_state :: prog_state where
  "single_state = initial_state\<lparr>file_path_dict := [member_a]\<rparr>"

text \<open>
  Three files of one content, two of them in the catalog: \<^verbatim>\<open>b.mp3\<close> and \<^verbatim>\<open>c.mp3\<close>.
\<close>

definition two_linked_state :: prog_state where
  "two_linked_state = initial_state\<lparr>file_path_dict := [member_b, member_a, member_c]\<rparr>"

text \<open>
  Only \<^verbatim>\<open>b.mp3\<close>, as a record from the disk onto which no catalog entry has been
  merged yet.
\<close>

definition unlinked_state :: prog_state where
  "unlinked_state =
     initial_state\<lparr>file_path_dict :=
       [(''/m/b.mp3'',
         \<lparr>file_path = Some ''/m/b.mp3'', file_name = Some ''b.mp3'',
            checksum = Some ''4038471504'', itunes_key = KeyInt (- 1),
            itunes_file_path = None\<rparr>)]\<rparr>"

text \<open>The example world with a catalog directory that cannot be written.\<close>

definition readonly_env :: env where
  "readonly_env = example_env\<lparr>open_wb := (\<lambda>p. Some (LibraryError ''Permission denied''))\<rparr>"

section \<open>Commented-out arguments\<close>

lemma good_args_append: "good_args (xs @ ys) = good_args xs @ good_args ys"
  by (induction xs) auto

lemma good_args_drops_commented:
  "startswith a ''#'' \<or> startswith a ''--#'' \<or> startswith a ''-#''
     \<Longrightarrow> a \<notin> set (good_args zs)"
  by (induction zs) auto

text \<open>
  Claim C10. An argument that starts with \<^verbatim>\<open>#\<close>, \<^verbatim>\<open>--#\<close> or \<^verbatim>\<open>-#\<close> is removed
  before the arguments are parsed: the list handed to the parser is the same with and
  without it, it is never in that list, and the whole run (the selected XML file, root
  directory and cache file included) is the same as without it.
\<close>

theorem commented_arguments_ignored:
  assumes "startswith a ''#'' \<or> startswith a ''--#'' \<or> startswith a ''-#''"
  shows "good_args (xs @ a # ys) = good_args (xs @ ys)
       \<and> a \<notin> set (good_args zs)
       \<and> main E (xs @ a # ys) = main E (xs @ ys)"
proof -
  have "good_args (a # ys) = good_args ys"
    using assms by auto
  then have eq: "good_args (xs @ a # ys) = good_args (xs @ ys)"
    by (simp add: good_args_append)
  have "main E (xs @ a # ys) = main E (xs @ ys)"
    unfolding main_def eq ..
  with eq good_args_drops_commented[OF assms] show ?thesis
    by simp
qed

theorem commented_arguments_ignored_witness:
  "(startswith ''--#cache=old.pkl'' ''#'' \<or> startswith ''--#cache=old.pkl'' ''--#''
      \<or> startswith ''--#cache=old.pkl'' ''-#'')
   \<and> good_args ([''--xml'', ''/L.xml''] @ ''--#cache=old.pkl'' # [''--dir'', ''/m''])
       = good_args ([''--xml'', ''/L.xml''] @ [''--dir'', ''/m''])
   \<and> ''--#cache=old.pkl'' \<notin> set (good_args [''--#cache=old.pkl'', ''--dir'', ''/m''])
   \<and> main example_env ([''--xml'', ''/L.xml''] @ ''--#cache=old.pkl'' # [''--dir'', ''/m''])
       = main example_env ([''--xml'', ''/L.xml''] @ [''--dir'', ''/m''])"
proof -
  have h: "startswith ''--#cache=old.pkl'' ''#'' \<or> startswith ''--#cache=old.pkl'' ''--#''
      \<or> startswith ''--#cache=old.pkl'' ''-#''"
    by (simp add: startswith_def)
  from commented_arguments_ignored[OF h] h show ?thesis
    by blast
qed

section \<open>The store: frame properties, the invariant and the two writers\<close>

lemma list_all_update:
  "list_all P al \<Longrightarrow> P (k, v) \<Longrightarrow> list_all P (AList.update k v al)"
  by (induction al) auto

lemma print_line_fields [simp]:
  "file_path_dict (print_line s st) = file_path_dict st"
  "checksums_dict (print_line s st) = checksums_dict st"
  "stdout (print_line s st) = stdout st @ [s]"
  "opened (print_line s st) = opened st"
  "writes (print_line s st) = writes st"
  "io_log (print_line s st) = io_log st"
  by (simp_all add: print_line_def)

lemma process_file_store:
  "file_path_dict (fst (process_file E f st)) =
     (case checksum_file E f of
        Inl e \<Rightarrow> file_path_dict st
      | Inr c \<Rightarrow>
          AList.update f
            (FileAttributes_init\<lparr>file_path := Some f, file_name := Some (path_leaf E f),
               checksum := Some c\<rparr>)
            (file_path_dict st))"
  by (simp add: process_file_def Let_def split: sum.splits)

lemma store_inv_process_file:
  "store_inv st \<Longrightarrow> store_inv (fst (process_file E f st))"
  by (auto simp: store_inv_def process_file_store record_ok_def
      intro!: list_all_update split: sum.splits)

lemma store_inv_run_tasks:
  "store_inv st \<Longrightarrow> store_inv (run_tasks E fs st)"
  by (induction fs arbitrary: st) (simp_all add: store_inv_process_file)

lemma store_inv_print_line [simp]: "store_inv (print_line s st) = store_inv st"
  by (simp add: store_inv_def)

lemma store_inv_calculate_all_checksums:
  "store_inv st \<Longrightarrow> store_inv (calculate_all_checksums E d st)"
  by (simp add: calculate_all_checksums_def store_inv_run_tasks)

lemma store_inv_merge_entry:
  "store_inv st \<Longrightarrow> store_inv (merge_entry E k d st)"
  by (auto simp: merge_entry_def Let_def store_inv_def record_ok_def update_conv'
      intro!: list_all_update split: option.splits)

lemma store_inv_node_loop:
  "store_inv st \<Longrightarrow> store_inv (snd (node_loop E ds k st))"
  by (induction ds arbitrary: k st) (simp_all add: store_inv_merge_entry)

lemma store_inv_tracks_loop:
  "store_inv st \<Longrightarrow> store_inv (snd (tracks_loop E ns k st))"
proof (induction ns arbitrary: k st)
  case Nil
  then show ?case by simp
next
  case (Cons n ns)
  from Cons.prems have "store_inv (snd (node_loop E (iter_elem n) k st))"
    by (rule store_inv_node_loop)
  then show ?case
    by (auto simp: Cons.IH split: prod.splits)
qed

lemma store_inv_read_itunes_library:
  "store_inv st \<Longrightarrow> store_inv (read_itunes_library E x st)"
  by (simp add: read_itunes_library_def store_inv_tracks_loop split: sum.splits)


lemma open_all_frame [simp]:
  "file_path_dict (fst (open_all E fs st)) = file_path_dict st"
  "checksums_dict (fst (open_all E fs st)) = checksums_dict st"
  "stdout (fst (open_all E fs st)) = stdout st"
  "writes (fst (open_all E fs st)) = writes st"
  by (induction E fs st rule: open_all.induct; simp split: option.splits)+

lemma classify_loop_frame [simp]:
  "file_path_dict (fst (classify_loop E d st)) = file_path_dict st"
  "checksums_dict (fst (classify_loop E d st)) = checksums_dict st"
  "stdout (fst (classify_loop E d st)) = stdout st"
  "opened (fst (classify_loop E d st)) = opened st"
  by (induction E d st rule: classify_loop.induct; simp split: sum.splits)+

lemma find_in_itunes_frame [simp]:
  "file_path_dict (snd (fst (find_in_itunes ms f st))) = file_path_dict st"
  "checksums_dict (snd (fst (find_in_itunes ms f st))) = checksums_dict st"
  "opened (snd (fst (find_in_itunes ms f st))) = opened st"
  "writes (snd (fst (find_in_itunes ms f st))) = writes st"
  by (induction ms f st rule: find_in_itunes.induct; simp split: option.splits sum.splits)+

lemma find_in_itunes_frameD:
  "find_in_itunes ms f st = ((f', st'), e) \<Longrightarrow>
     file_path_dict st' = file_path_dict st \<and> checksums_dict st' = checksums_dict st
     \<and> opened st' = opened st \<and> writes st' = writes st"
  using find_in_itunes_frame[of ms f st] by simp

lemma report_dupes_frameD:
  "report_dupes ms f st = (st', e) \<Longrightarrow>
     file_path_dict st' = file_path_dict st \<and> checksums_dict st' = checksums_dict st
     \<and> opened st' = opened st"
proof (induction ms arbitrary: st)
  case Nil
  then show ?case by simp
next
  case (Cons m ms)
  show ?case
  proof (cases f)
    case None
    show ?thesis
    proof (cases "file_path (snd m)")
      case fnone: None
      with Cons.prems None show ?thesis by simp
    next
      case (Some p)
      with Cons.prems None have
        "report_dupes ms f
           (print_line (p @ '' is a duplicate, but does not have a copy in iTunes DB'') st)
         = (st', e)"
        by simp
      from Cons.IH[OF this] show ?thesis by simp
    qed
  next
    case (Some orig)
    show ?thesis
    proof (cases "fst orig \<noteq> fst m")
      case True
      show ?thesis
      proof (cases "quoted_pair (file_name (snd m)) (file_path (snd m))")
        case (Inl a)
        with Cons.prems Some True show ?thesis by simp
      next
        case (Inr row)
        with Cons.prems Some True have
          "report_dupes ms f (st\<lparr>writes := writes st @ [(fh_dupe_file_orig_in_itunes, row)]\<rparr>)
           = (st', e)"
          by simp
        from Cons.IH[OF this] show ?thesis by simp
      qed
    next
      case False
      with Cons.prems Some have "report_dupes ms f st = (st', e)" by simp
      from Cons.IH[OF this] show ?thesis .
    qed
  qed
qed

lemma dupe_group_frameD:
  "dupe_group ms st = (st', e) \<Longrightarrow>
     file_path_dict st' = file_path_dict st \<and> checksums_dict st' = checksums_dict st
     \<and> opened st' = opened st"
  by (auto simp: dupe_group_def split: prod.splits option.splits
      dest!: find_in_itunes_frameD report_dupes_frameD)

lemma dupes_loop_frameD:
  "dupes_loop cd st = (st', e) \<Longrightarrow>
     file_path_dict st' = file_path_dict st \<and> checksums_dict st' = checksums_dict st
     \<and> opened st' = opened st"
proof (induction cd st arbitrary: st' e rule: dupes_loop.induct)
  case (1 st)
  then show ?case by simp
next
  case (2 cksum file_data_array rest st)
  show ?case
  proof (cases "list_len_method file_data_array")
    case (Inl a)
    with "2.prems" show ?thesis by simp
  next
    case (Inr n)
    show ?thesis
    proof (cases "n > 1")
      case True
      obtain st1 e1 where g: "dupe_group file_data_array st = (st1, e1)"
        by (metis prod.exhaust)
      note f = dupe_group_frameD[OF g]
      show ?thesis
      proof (cases e1)
        case None
        with "2.prems" Inr True g have "dupes_loop rest st1 = (st', e)" by simp
        from "2.IH"(1)[OF Inr True _ _ this, of e1] g None f show ?thesis by simp
      next
        case (Some a)
        with "2.prems" Inr True g f show ?thesis by auto
      qed
    next
      case False
      with "2.prems" Inr have "dupes_loop rest st = (st', e)" by simp
      from "2.IH"(2)[OF Inr False this] show ?thesis .
    qed
  qed
qed

lemma open_all_frameD:
  "open_all E fs st = (st', e) \<Longrightarrow>
     file_path_dict st' = file_path_dict st \<and> checksums_dict st' = checksums_dict st
     \<and> stdout st' = stdout st \<and> writes st' = writes st"
  using open_all_frame[of E fs st] by simp

lemma classify_loop_frameD:
  "classify_loop E d st = (st', e) \<Longrightarrow>
     file_path_dict st' = file_path_dict st \<and> checksums_dict st' = checksums_dict st
     \<and> stdout st' = stdout st \<and> opened st' = opened st"
  using classify_loop_frame[of E d st] by simp



lemma generate_reports_frame:
  "generate_reports E rp st = (st', e) \<Longrightarrow>
     file_path_dict st' = file_path_dict st \<and>
     (checksums_dict st' = checksums_dict st \<or>
      checksums_dict st' = create_dupes_loop (file_path_dict st) (checksums_dict st))"
proof -
  assume g: "generate_reports E rp st = (st', e)"
  let ?s0 = "st\<lparr>opened := [], writes := []\<rparr>"
  show ?thesis
  proof (cases "if os_path_exists E rp then None else os_mkdir E rp")
    case (Some a)
    with g show ?thesis by (auto simp: generate_reports_def Let_def)
  next
    case None
    obtain st2 e2 where o: "open_all E (report_files rp) (create_dupes_map ?s0) = (st2, e2)"
      by (metis prod.exhaust)
    from open_all_frameD[OF o] have s2:
      "file_path_dict st2 = file_path_dict st"
      "checksums_dict st2 = create_dupes_loop (file_path_dict st) (checksums_dict st)"
      by (simp_all add: create_dupes_map_def)
    obtain st3 e3 where c: "classify_loop E (file_path_dict st2) st2 = (st3, e3)"
      by (metis prod.exhaust)
    from classify_loop_frameD[OF c] s2 have s3:
      "file_path_dict st3 = file_path_dict st"
      "checksums_dict st3 = create_dupes_loop (file_path_dict st) (checksums_dict st)"
      by simp_all
    obtain st4 e4 where d: "dupes_loop (checksums_dict st3) st3 = (st4, e4)"
      by (metis prod.exhaust)
    from dupes_loop_frameD[OF d] s3 have s4:
      "file_path_dict st4 = file_path_dict st"
      "checksums_dict st4 = create_dupes_loop (file_path_dict st) (checksums_dict st)"
      by simp_all
    from g None o c d have "st' = st2 \<or> st' = st3 \<or> st' = st4"
      by (auto simp: generate_reports_def Let_def split: option.splits)
    with s2 s3 s4 show ?thesis by auto
  qed
qed

lemma generate_reports_store [simp]:
  "file_path_dict (fst (generate_reports E rp st)) = file_path_dict st"
  using generate_reports_frame[of E rp st] by (metis prod.collapse)

lemma save_cache_store [simp]:
  "file_path_dict (save_cache E x st) = file_path_dict st"
  "checksums_dict (save_cache E x st) = checksums_dict st"
  by (simp_all add: save_cache_def Let_def split: option.splits)

lemma store_inv_initial_state: "store_inv initial_state"
  by (simp add: store_inv_def initial_state_def)

lemma store_inv_save_cache: "store_inv (save_cache E x st) = store_inv st"
  by (simp add: store_inv_def)

lemma store_inv_generate_reports: "store_inv (fst (generate_reports E rp st)) = store_inv st"
  by (simp add: store_inv_def)

lemma fst_finish [simp]: "fst (finish x) = fst x"
  by (cases x; cases "snd x") auto

lemma store_inv_main:
  assumes "parse_args E (good_args argv) = Parsed args" and "cache_file args = []"
  shows "store_inv (fst (main E argv))"
  using assms
  by (simp add: main_def Let_def store_inv_generate_reports store_inv_save_cache
      store_inv_read_itunes_library store_inv_calculate_all_checksums store_inv_initial_state)

text \<open>
  Claim C7. Every record of the store has a file-system path or a catalog path: the
  empty store of a new process has the property, and the scanner's insert, the whole
  scan, the merge of one catalog entry, the whole catalog pass, the snapshot and the
  report generator keep it; so it holds in every state of a run that scans and parses.
  The states are those between the operations: the empty record that line 106 stores
  gets its catalog path at line 107, under the same hold of the lock.
\<close>

theorem path_or_catalog_path_invariant:
  "store_inv initial_state \<and>
   (store_inv st \<longrightarrow>
      store_inv (fst (process_file E f st)) \<and>
      store_inv (calculate_all_checksums E d st) \<and>
      store_inv (merge_entry E k this_dict st) \<and>
      store_inv (read_itunes_library E x st) \<and>
      store_inv (save_cache E x st) \<and>
      store_inv (fst (generate_reports E rp st))) \<and>
   (parse_args E (good_args argv) = Parsed args \<and> cache_file args = [] \<longrightarrow>
      store_inv (fst (main E argv)))"
  by (simp add: store_inv_initial_state store_inv_process_file
      store_inv_calculate_all_checksums store_inv_merge_entry store_inv_read_itunes_library
      store_inv_save_cache store_inv_generate_reports store_inv_main)

lemma reconciled_store:
  "file_path_dict reconciled_state =
     [(''/m/a.mp3'',
       \<lparr>file_path = Some ''/m/a.mp3'', file_name = Some ''a.mp3'',
          checksum = Some ''4038471504'', itunes_key = KeyInt (- 1),
          itunes_file_path = None\<rparr>),
      (''/m/b.mp3'',
       \<lparr>file_path = Some ''/m/b.mp3'', file_name = Some ''b.mp3'',
          checksum = Some ''4038471504'', itunes_key = KeyInt (- 1),
          itunes_file_path = Some ''/m/b.mp3''\<rparr>)]"
  by (simp add: reconciled_state_def cached_store_def member_a_def member_b_def)

lemma same_but_catalog_fields_refl [simp]: "same_but_catalog_fields r r"
  by (simp add: same_but_catalog_fields_def)

lemma same_but_catalog_fields_update [simp]:
  "same_but_catalog_fields r (r\<lparr>itunes_file_path := p, itunes_key := i\<rparr>)"
  by (simp add: same_but_catalog_fields_def)

lemma same_but_catalog_fields_trans:
  "same_but_catalog_fields r r' \<Longrightarrow> same_but_catalog_fields r' r''
     \<Longrightarrow> same_but_catalog_fields r r''"
  unfolding same_but_catalog_fields_def
  by (metis FileAttributes.update_convs(4) FileAttributes.update_convs(5)
      FileAttributes.surjective FileAttributes.select_convs)

lemma merge_entry_keeps_scanner_fields:
  assumes "map_of (file_path_dict st) k = Some r"
  shows "\<exists>r'. map_of (file_path_dict (merge_entry E ck d st)) k = Some r'
           \<and> same_but_catalog_fields r r'"
  using assms
  by (auto simp: merge_entry_def Let_def update_conv' split: option.splits)

lemma node_loop_keeps_scanner_fields:
  "map_of (file_path_dict st) k = Some r \<Longrightarrow>
     \<exists>r'. map_of (file_path_dict (snd (node_loop E ds ck st))) k = Some r'
          \<and> same_but_catalog_fields r r'"
proof (induction ds arbitrary: ck st r)
  case Nil
  then show ?case by simp
next
  case (Cons d ds)
  show ?case
  proof (cases "elem_tag d = ''key''")
    case True
    with Cons.IH[OF Cons.prems] show ?thesis by simp
  next
    case nokey: False
    show ?thesis
    proof (cases "elem_tag d = ''dict''")
      case True
      let ?st1 = "merge_entry E ck (collect_attributes (iter_elem d) (Some []) Map.empty) st"
      from merge_entry_keeps_scanner_fields[OF Cons.prems] obtain r1 where
        r1: "map_of (file_path_dict ?st1) k = Some r1" "same_but_catalog_fields r r1"
        by blast
      from Cons.IH[OF r1(1), of ck] obtain r' where
        "map_of (file_path_dict (snd (node_loop E ds ck ?st1))) k = Some r'"
        "same_but_catalog_fields r1 r'"
        by blast
      with r1(2) nokey True show ?thesis
        by (auto intro: same_but_catalog_fields_trans)
    next
      case False
      with nokey Cons.IH[OF Cons.prems] show ?thesis by simp
    qed
  qed
qed

lemma tracks_loop_keeps_scanner_fields:
  "map_of (file_path_dict st) k = Some r \<Longrightarrow>
     \<exists>r'. map_of (file_path_dict (snd (tracks_loop E ns ck st))) k = Some r'
          \<and> same_but_catalog_fields r r'"
proof (induction ns arbitrary: ck st r)
  case Nil
  then show ?case by simp
next
  case (Cons n ns)
  obtain ck1 st1 where nl: "node_loop E (iter_elem n) ck st = (ck1, st1)"
    by (metis prod.exhaust)
  from node_loop_keeps_scanner_fields[OF Cons.prems, of E "iter_elem n" ck] nl obtain r1 where
    r1: "map_of (file_path_dict st1) k = Some r1" "same_but_catalog_fields r r1"
    by auto
  from Cons.IH[OF r1(1), of ck1] obtain r' where
    "map_of (file_path_dict (snd (tracks_loop E ns ck1 st1))) k = Some r'"
    "same_but_catalog_fields r1 r'"
    by blast
  with r1(2) nl show ?case
    by (auto intro: same_but_catalog_fields_trans)
qed

lemma read_itunes_library_keeps_scanner_fields:
  "map_of (file_path_dict st) k = Some r \<Longrightarrow>
     \<exists>r'. map_of (file_path_dict (read_itunes_library E x st)) k = Some r'
          \<and> same_but_catalog_fields r r'"
  by (auto simp: read_itunes_library_def tracks_loop_keeps_scanner_fields split: sum.splits)

text \<open>
  The scanner never writes: \<^verbatim>\<open>checksum_file\<close> raises for every file, so
  \<^verbatim>\<open>process_file\<close> ends at line 59 and the assignment of line 66 is not reached.
\<close>

lemma checksum_file_raises: "\<exists>e. checksum_file E f = Inl e"
  by (simp add: checksum_file_def bytes_split_def split: sum.splits)

lemma process_file_store_unchanged:
  "file_path_dict (fst (process_file E f st)) = file_path_dict st"
  using checksum_file_raises[of E f] by (auto simp: process_file_store)

lemma run_tasks_store_unchanged:
  "file_path_dict (run_tasks E fs st) = file_path_dict st"
  by (induction fs arbitrary: st) (simp_all add: process_file_store_unchanged)

lemma calculate_all_checksums_store_unchanged:
  "file_path_dict (calculate_all_checksums E d st) = file_path_dict st"
  by (simp add: calculate_all_checksums_def run_tasks_store_unchanged)




lemma catalog_only_store:
  "file_path_dict catalog_only_state =
     [(''/m/b.mp3'',
       \<lparr>file_path = None, file_name = None, checksum = None,
          itunes_key = KeyInt (- 1), itunes_file_path = Some ''/m/b.mp3''\<rparr>)]"
  by (simp add: catalog_only_state_def read_itunes_library_def
      example_env_def example_catalog_def initial_state_def print_line_def
      FileAttributes_init_def findall_tracks_def child_elems_def merge_entry_def Let_def)


text \<open>The invariant at the store of the example cache file and at a run that scans.\<close>

theorem path_or_catalog_path_invariant_witness:
  "store_inv reconciled_state \<and>
   store_inv (fst (process_file example_env ''/m/a.mp3'' reconciled_state)) \<and>
   store_inv (calculate_all_checksums example_env ''/m'' reconciled_state) \<and>
   store_inv (read_itunes_library example_env ''/L.xml'' reconciled_state) \<and>
   store_inv (fst (generate_reports example_env ''./output_L_xml/'' reconciled_state)) \<and>
   parse_args example_env (good_args [''--xml'', ''/L.xml'', ''--dir'', ''/m''])
     = Parsed \<lparr>itunes_dir = ''/m'', xml_file = ''/L.xml'', cache_file = []\<rparr> \<and>
   store_inv (fst (main example_env [''--xml'', ''/L.xml'', ''--dir'', ''/m'']))"
proof -
  have h1: "store_inv reconciled_state"
    by (simp add: store_inv_def reconciled_store record_ok_def)
  have h2: "parse_args example_env (good_args [''--xml'', ''/L.xml'', ''--dir'', ''/m''])
     = Parsed \<lparr>itunes_dir = ''/m'', xml_file = ''/L.xml'', cache_file = []\<rparr>"
    by (simp add: example_env_def startswith_def)
  have h3: "cache_file \<lparr>itunes_dir = ''/m'', xml_file = ''/L.xml'', cache_file = []\<rparr> = []"
    by simp
  from path_or_catalog_path_invariant[of reconciled_state example_env "''/m/a.mp3''" "''/m''"
      "KeyInt (- 1)" Map.empty "''/L.xml''" "''./output_L_xml/''"
      "[''--xml'', ''/L.xml'', ''--dir'', ''/m'']"
      "\<lparr>itunes_dir = ''/m'', xml_file = ''/L.xml'', cache_file = []\<rparr>"] h1 h2 h3
  show ?thesis by blast
qed

text \<open>
  Claim C6. For a record that is in the store under any key: the merge of a catalog
  entry, and the whole catalog pass, leave it with the same path, name and checksum
  (the record afterwards is the record before with only \<^verbatim>\<open>itunes_file_path\<close> and
  \<^verbatim>\<open>itunes_key\<close> assigned); and the scanner, for one file and for a whole directory,
  leaves it as it is, catalog fields included, since \<^verbatim>\<open>process_file\<close> ends before
  its write. So whichever source comes first, no write of one source takes away a
  field that the other has set.
\<close>

theorem no_writer_unsets_the_others_fields:
  "map_of (file_path_dict st) k = Some r \<longrightarrow>
     (\<exists>r'. map_of (file_path_dict (merge_entry E cur_key this_dict st)) k = Some r'
           \<and> same_but_catalog_fields r r') \<and>
     (\<exists>r'. map_of (file_path_dict (read_itunes_library E x st)) k = Some r'
           \<and> same_but_catalog_fields r r') \<and>
     map_of (file_path_dict (fst (process_file E f st))) k = Some r \<and>
     map_of (file_path_dict (calculate_all_checksums E d st)) k = Some r"
  using merge_entry_keeps_scanner_fields read_itunes_library_keeps_scanner_fields
  by (simp add: process_file_store_unchanged calculate_all_checksums_store_unchanged)

text \<open>
  The claim at the example, in both orders. The catalog entry of \<^verbatim>\<open>b.mp3\<close> is merged
  onto a record from the disk: path, name and checksum stay, the catalog path is set.
  And the catalog has written the record of \<^verbatim>\<open>b.mp3\<close> first: the scan of the same
  file, and of the whole directory, leaves its catalog path set.
\<close>

theorem no_writer_unsets_the_others_fields_witness:
  "map_of (file_path_dict unlinked_state) ''/m/b.mp3'' =
     Some \<lparr>file_path = Some ''/m/b.mp3'', file_name = Some ''b.mp3'',
          checksum = Some ''4038471504'', itunes_key = KeyInt (- 1),
          itunes_file_path = None\<rparr> \<and>
   map_of (file_path_dict (read_itunes_library example_env ''/L.xml'' unlinked_state))
       ''/m/b.mp3'' =
     Some \<lparr>file_path = Some ''/m/b.mp3'', file_name = Some ''b.mp3'',
          checksum = Some ''4038471504'', itunes_key = KeyInt (- 1),
          itunes_file_path = Some ''/m/b.mp3''\<rparr> \<and>
   (\<exists>r'. map_of (file_path_dict (read_itunes_library example_env ''/L.xml'' unlinked_state))
           ''/m/b.mp3'' = Some r'
         \<and> same_but_catalog_fields
             \<lparr>file_path = Some ''/m/b.mp3'', file_name = Some ''b.mp3'',
                checksum = Some ''4038471504'', itunes_key = KeyInt (- 1),
                itunes_file_path = None\<rparr> r') \<and>
   map_of (file_path_dict catalog_only_state) ''/m/b.mp3'' =
     Some \<lparr>file_path = None, file_name = None, checksum = None,
          itunes_key = KeyInt (- 1), itunes_file_path = Some ''/m/b.mp3''\<rparr> \<and>
   map_of (file_path_dict (fst (process_file example_env ''/m/b.mp3'' catalog_only_state)))
       ''/m/b.mp3'' =
     Some \<lparr>file_path = None, file_name = None, checksum = None,
          itunes_key = KeyInt (- 1), itunes_file_path = Some ''/m/b.mp3''\<rparr> \<and>
   map_of (file_path_dict (calculate_all_checksums example_env ''/m'' catalog_only_state))
       ''/m/b.mp3'' =
     Some \<lparr>file_path = None, file_name = None, checksum = None,
          itunes_key = KeyInt (- 1), itunes_file_path = Some ''/m/b.mp3''\<rparr>"
proof -
  have h1: "map_of (file_path_dict unlinked_state) ''/m/b.mp3'' =
     Some \<lparr>file_path = Some ''/m/b.mp3'', file_name = Some ''b.mp3'',
          checksum = Some ''4038471504'', itunes_key = KeyInt (- 1),
          itunes_file_path = None\<rparr>"
    by (simp add: unlinked_state_def)
  have h2: "map_of (file_path_dict (read_itunes_library example_env ''/L.xml'' unlinked_state))
       ''/m/b.mp3'' =
     Some \<lparr>file_path = Some ''/m/b.mp3'', file_name = Some ''b.mp3'',
          checksum = Some ''4038471504'', itunes_key = KeyInt (- 1),
          itunes_file_path = Some ''/m/b.mp3''\<rparr>"
    by (simp add: unlinked_state_def read_itunes_library_def
        example_env_def example_catalog_def initial_state_def print_line_def
        FileAttributes_init_def findall_tracks_def child_elems_def merge_entry_def Let_def)
  have h3: "map_of (file_path_dict catalog_only_state) ''/m/b.mp3'' =
     Some \<lparr>file_path = None, file_name = None, checksum = None,
          itunes_key = KeyInt (- 1), itunes_file_path = Some ''/m/b.mp3''\<rparr>"
    by (simp add: catalog_only_store)
  from no_writer_unsets_the_others_fields[of unlinked_state "''/m/b.mp3''" _ example_env
      "KeyInt (- 1)" Map.empty "''/L.xml''" "''/m/b.mp3''" "''/m''"]
    no_writer_unsets_the_others_fields[of catalog_only_state "''/m/b.mp3''" _ example_env
      "KeyInt (- 1)" Map.empty "''/L.xml''" "''/m/b.mp3''" "''/m''"] h1 h2 h3
  show ?thesis by blast
qed






section \<open>The example states, evaluated\<close>

lemma missing_store:
  "file_path_dict missing_state =
     [(''/m/a.mp3'',
       \<lparr>file_path = Some ''/m/a.mp3'', file_name = Some ''a.mp3'',
          checksum = Some ''4038471504'', itunes_key = KeyInt (- 1),
          itunes_file_path = None\<rparr>),
      (''/m/b.mp3'',
       \<lparr>file_path = None, file_name = None, checksum = None,
          itunes_key = KeyInt (- 1), itunes_file_path = Some ''/m/b.mp3''\<rparr>)]"
  "checksums_dict missing_state = []"
  by (simp_all add: missing_state_def member_a_def initial_state_def)

lemma reconciled_checksums: "checksums_dict reconciled_state = []"
  by (simp add: reconciled_state_def initial_state_def)

lemma single_store:
  "file_path_dict single_state =
     [(''/m/a.mp3'',
       \<lparr>file_path = Some ''/m/a.mp3'', file_name = Some ''a.mp3'',
          checksum = Some ''4038471504'', itunes_key = KeyInt (- 1),
          itunes_file_path = None\<rparr>)]"
  "checksums_dict single_state = []"
  by (simp_all add: single_state_def member_a_def initial_state_def)

lemma example_env_fields:
  "os_path_exists example_env p = False"
  "os_mkdir example_env p = None"
  "open_w example_env p = None"
  "ntpath_split example_env = split_at_last_slash"
  by (simp_all add: example_env_def)

section \<open>The classification loop\<close>

lemma classify_loop_rows:
  "classify_loop E d st =
     (st\<lparr>writes := writes st @ fst (classify_rows E d)\<rparr>, snd (classify_rows E d))"
proof (induction d arbitrary: st)
  case Nil
  then show ?case by simp
next
  case (Cons a d)
  obtain k r where a: "a = (k, r)" by (cases a)
  show ?case
  proof (cases "classify_item E r")
    case (Inl e)
    with a show ?thesis by simp
  next
    case (Inr w)
    with a Cons.IH[of "st\<lparr>writes := writes st @ [w]\<rparr>"] show ?thesis
      by (simp split: prod.splits)
  qed
qed

lemma classify_item_wf:
  "record_wf r \<Longrightarrow> classify_item E r = Inr (classification r, report_row E r)"
  by (auto simp: record_wf_def classify_item_def classification_def report_row_def
      quoted_pair_def split: option.splits)

lemma classify_rows_wf:
  "store_wf d \<Longrightarrow>
     classify_rows E d = (map (\<lambda>(k, r). (classification r, report_row E r)) d, None)"
  by (induction d) (auto simp: store_wf_def classify_item_wf)

lemma classification_not_dupe [simp]: "classification r \<noteq> fh_dupe_file_orig_in_itunes"
  by (simp add: classification_def)

lemma classify_item_handle:
  "classify_item E r = Inr w \<Longrightarrow> fst w \<noteq> fh_dupe_file_orig_in_itunes"
  by (auto simp: classify_item_def split: option.splits sum.splits)

lemma classify_rows_outputs [simp]:
  "outputs_1_to_3 (fst (classify_rows E d)) = fst (classify_rows E d)"
proof (induction d)
  case Nil
  then show ?case by (simp add: outputs_1_to_3_def)
next
  case (Cons a d)
  obtain k r where a: "a = (k, r)" by (cases a)
  show ?case
  proof (cases "classify_item E r")
    case (Inl e)
    with a show ?thesis by (simp add: outputs_1_to_3_def)
  next
    case (Inr w)
    with a Cons.IH classify_item_handle[OF Inr] show ?thesis
      by (auto simp: outputs_1_to_3_def split: prod.splits)
  qed
qed

lemma outputs_1_to_3_append [simp]:
  "outputs_1_to_3 (xs @ ys) = outputs_1_to_3 xs @ outputs_1_to_3 ys"
  "outputs_1_to_3 [] = []"
  by (simp_all add: outputs_1_to_3_def)

lemma open_all_error_indep:
  "snd (open_all E fs st) = snd (open_all E fs st')"
proof (induction fs arbitrary: st st')
  case Nil
  then show ?case by simp
next
  case (Cons a fs)
  obtain h p where a: "a = (h, p)" by (cases a)
  show ?case
  proof (cases "open_w E p")
    case None
    with a Cons.IH[of "st\<lparr>opened := opened st @ [(h, p)]\<rparr>" "st'\<lparr>opened := opened st' @ [(h, p)]\<rparr>"]
    show ?thesis by simp
  next
    case (Some e)
    with a show ?thesis by simp
  qed
qed

lemma open_all_ok:
  "list_all (\<lambda>(h, p). open_w E p = None) fs \<Longrightarrow>
     open_all E fs st = (st\<lparr>opened := opened st @ fs\<rparr>, None)"
  by (induction fs arbitrary: st) auto

section \<open>The loop over the groups\<close>

lemma report_dupes_outputs:
  "report_dupes ms f st = (st', e) \<Longrightarrow>
     outputs_1_to_3 (writes st') = outputs_1_to_3 (writes st)"
proof (induction ms arbitrary: st)
  case Nil
  then show ?case by simp
next
  case (Cons m ms)
  show ?case
  proof (cases f)
    case None
    show ?thesis
    proof (cases "file_path (snd m)")
      case fnone: None
      with Cons.prems None show ?thesis by simp
    next
      case (Some p)
      with Cons.prems None have
        "report_dupes ms f
           (print_line (p @ '' is a duplicate, but does not have a copy in iTunes DB'') st)
         = (st', e)"
        by simp
      from Cons.IH[OF this] show ?thesis by simp
    qed
  next
    case (Some orig)
    show ?thesis
    proof (cases "fst orig \<noteq> fst m")
      case True
      show ?thesis
      proof (cases "quoted_pair (file_name (snd m)) (file_path (snd m))")
        case (Inl a)
        with Cons.prems Some True show ?thesis by simp
      next
        case (Inr row)
        with Cons.prems Some True have
          "report_dupes ms f (st\<lparr>writes := writes st @ [(fh_dupe_file_orig_in_itunes, row)]\<rparr>)
           = (st', e)"
          by simp
        from Cons.IH[OF this] show ?thesis by (simp add: outputs_1_to_3_def)
      qed
    next
      case False
      with Cons.prems Some have "report_dupes ms f st = (st', e)" by simp
      from Cons.IH[OF this] show ?thesis .
    qed
  qed
qed

lemma dupe_group_outputs:
  "dupe_group ms st = (st', e) \<Longrightarrow>
     outputs_1_to_3 (writes st') = outputs_1_to_3 (writes st)"
  by (auto simp: dupe_group_def split: prod.splits option.splits
      dest!: find_in_itunes_frameD report_dupes_outputs)

lemma dupes_loop_outputs:
  "dupes_loop cd st = (st', e) \<Longrightarrow>
     outputs_1_to_3 (writes st') = outputs_1_to_3 (writes st)"
proof (induction cd st arbitrary: st' e rule: dupes_loop.induct)
  case (1 st)
  then show ?case by simp
next
  case (2 cksum file_data_array rest st)
  show ?case
  proof (cases "list_len_method file_data_array")
    case (Inl a)
    with "2.prems" show ?thesis by simp
  next
    case (Inr n)
    show ?thesis
    proof (cases "n > 1")
      case True
      obtain st1 e1 where g: "dupe_group file_data_array st = (st1, e1)"
        by (metis prod.exhaust)
      note f = dupe_group_outputs[OF g]
      show ?thesis
      proof (cases e1)
        case None
        with "2.prems" Inr True g have "dupes_loop rest st1 = (st', e)" by simp
        from "2.IH"(1)[OF Inr True _ _ this, of e1] g None f show ?thesis by simp
      next
        case (Some a)
        with "2.prems" Inr True g f show ?thesis by auto
      qed
    next
      case False
      with "2.prems" Inr have "dupes_loop rest st = (st', e)" by simp
      from "2.IH"(2)[OF Inr False this] show ?thesis .
    qed
  qed
qed

text \<open>
  The loop ends at its first group: the call of \<^verbatim>\<open>len\<close> on the member list raises, so
  lines 153 to 164 are not reached, whatever the groups are.
\<close>

lemma dupes_loop_dead:
  "dupes_loop cd st =
     (st, if cd = [] then None else Some (AttributeError ''list object has no attribute len''))"
  by (cases cd) (auto simp: list_len_method_def)

section \<open>The whole report\<close>

lemma generate_reports_stages:
  assumes "(if os_path_exists E rp then None else os_mkdir E rp) = None"
  obtains (open_failed) st2 e where
      "open_all E (report_files rp) (create_dupes_map (st\<lparr>opened := [], writes := []\<rparr>))
         = (st2, Some e)"
      "generate_reports E rp st = (st2, Some e)"
    | (classify_failed) st2 e where
      "open_all E (report_files rp) (create_dupes_map (st\<lparr>opened := [], writes := []\<rparr>))
         = (st2, None)"
      "snd (classify_rows E (file_path_dict st2)) = Some e"
      "generate_reports E rp st =
         (st2\<lparr>writes := writes st2 @ fst (classify_rows E (file_path_dict st2))\<rparr>,
          Some (AttributeError ''TypeError object has no attribute message''))"
    | (dupes_done) st2 st4 e4 where
      "open_all E (report_files rp) (create_dupes_map (st\<lparr>opened := [], writes := []\<rparr>))
         = (st2, None)"
      "snd (classify_rows E (file_path_dict st2)) = None"
      "dupes_loop (checksums_dict st2)
         (st2\<lparr>writes := writes st2 @ fst (classify_rows E (file_path_dict st2))\<rparr>) = (st4, e4)"
      "fst (generate_reports E rp st) = st4"
proof -
  let ?s1 = "create_dupes_map (st\<lparr>opened := [], writes := []\<rparr>)"
  obtain st2 e2 where o: "open_all E (report_files rp) ?s1 = (st2, e2)"
    by (metis prod.exhaust)
  show ?thesis
  proof (cases e2)
    case (Some e)
    with o assms have "generate_reports E rp st = (st2, Some e)"
      by (simp add: generate_reports_def Let_def)
    with o Some open_failed show ?thesis by blast
  next
    case None
    let ?st3 = "st2\<lparr>writes := writes st2 @ fst (classify_rows E (file_path_dict st2))\<rparr>"
    have c: "classify_loop E (file_path_dict st2) st2 = (?st3, snd (classify_rows E (file_path_dict st2)))"
      by (rule classify_loop_rows)
    show ?thesis
    proof (cases "snd (classify_rows E (file_path_dict st2))")
      case cnone: None
      obtain st4 e4 where d: "dupes_loop (checksums_dict st2) ?st3 = (st4, e4)"
        by (metis prod.exhaust)
      with o None c cnone assms have "fst (generate_reports E rp st) = st4"
        by (simp add: generate_reports_def Let_def split: option.splits)
      with o None cnone d dupes_done show ?thesis by blast
    next
      case (Some e)
      with o None c assms have "generate_reports E rp st =
         (?st3, Some (AttributeError ''TypeError object has no attribute message''))"
        by (simp add: generate_reports_def Let_def)
      with o None Some classify_failed show ?thesis by blast
    qed
  qed
qed

lemma generate_reports_outputs:
  "outputs_1_to_3 (writes (fst (generate_reports E rp st)))
     = classified_rows E rp (file_path_dict st)"
proof (cases "(if os_path_exists E rp then None else os_mkdir E rp) = None")
  case False
  then show ?thesis
    by (auto simp: generate_reports_def classified_rows_def Let_def)
next
  case True
  let ?s1 = "create_dupes_map (st\<lparr>opened := [], writes := []\<rparr>)"
  have s1: "writes ?s1 = []" "file_path_dict ?s1 = file_path_dict st"
    by (simp_all add: create_dupes_map_def)
  from True show ?thesis
  proof (cases rule: generate_reports_stages[of E rp st])
    case (open_failed st2 e)
    from open_all_frameD[OF open_failed(1)] s1 have "writes st2 = []" by simp
    moreover have "snd (open_all E (report_files rp) initial_state) = Some e"
      using open_failed(1) open_all_error_indep[of E "report_files rp" initial_state ?s1]
      by simp
    ultimately show ?thesis
      using open_failed(2) by (simp add: classified_rows_def)
  next
    case (classify_failed st2 e)
    from open_all_frameD[OF classify_failed(1)] s1
    have w: "writes st2 = []" "file_path_dict st2 = file_path_dict st" by simp_all
    have "snd (open_all E (report_files rp) initial_state) = None"
      using classify_failed(1) open_all_error_indep[of E "report_files rp" initial_state ?s1]
      by simp
    with w True classify_failed(3) show ?thesis
      by (simp add: classified_rows_def)
  next
    case (dupes_done st2 st4 e4)
    from open_all_frameD[OF dupes_done(1)] s1
    have w: "writes st2 = []" "file_path_dict st2 = file_path_dict st" by simp_all
    have "snd (open_all E (report_files rp) initial_state) = None"
      using dupes_done(1) open_all_error_indep[of E "report_files rp" initial_state ?s1]
      by simp
    with w True dupes_loop_outputs[OF dupes_done(3)] dupes_done(4) show ?thesis
      by (simp add: classified_rows_def)
  qed
qed

text \<open>
  So the writes of a whole call are those of the first loop, and a call prints nothing.
\<close>

lemma generate_reports_writes:
  "writes (fst (generate_reports E rp st)) = classified_rows E rp (file_path_dict st)"
proof (cases "(if os_path_exists E rp then None else os_mkdir E rp) = None")
  case False
  then show ?thesis
    by (auto simp: generate_reports_def classified_rows_def Let_def)
next
  case True
  let ?s1 = "create_dupes_map (st\<lparr>opened := [], writes := []\<rparr>)"
  have s1: "writes ?s1 = []" "file_path_dict ?s1 = file_path_dict st"
    by (simp_all add: create_dupes_map_def)
  from True show ?thesis
  proof (cases rule: generate_reports_stages[of E rp st])
    case (open_failed st2 e)
    from open_all_frameD[OF open_failed(1)] s1 have "writes st2 = []" by simp
    moreover have "snd (open_all E (report_files rp) initial_state) = Some e"
      using open_failed(1) open_all_error_indep[of E "report_files rp" initial_state ?s1]
      by simp
    ultimately show ?thesis
      using open_failed(2) by (simp add: classified_rows_def)
  next
    case (classify_failed st2 e)
    from open_all_frameD[OF classify_failed(1)] s1
    have w: "writes st2 = []" "file_path_dict st2 = file_path_dict st" by simp_all
    have "snd (open_all E (report_files rp) initial_state) = None"
      using classify_failed(1) open_all_error_indep[of E "report_files rp" initial_state ?s1]
      by simp
    with w True classify_failed(3) show ?thesis
      by (simp add: classified_rows_def)
  next
    case (dupes_done st2 st4 e4)
    from open_all_frameD[OF dupes_done(1)] s1
    have w: "writes st2 = []" "file_path_dict st2 = file_path_dict st" by simp_all
    have "snd (open_all E (report_files rp) initial_state) = None"
      using dupes_done(1) open_all_error_indep[of E "report_files rp" initial_state ?s1]
      by simp
    moreover from dupes_done(3)
    have "st4 = st2\<lparr>writes := writes st2 @ fst (classify_rows E (file_path_dict st2))\<rparr>"
      by (simp add: dupes_loop_dead)
    ultimately show ?thesis
      using w True dupes_done(4) by (simp add: classified_rows_def)
  qed
qed

lemma generate_reports_stdout:
  "stdout (fst (generate_reports E rp st)) = stdout st"
proof (cases "(if os_path_exists E rp then None else os_mkdir E rp) = None")
  case False
  then show ?thesis
    by (auto simp: generate_reports_def Let_def)
next
  case True
  let ?s1 = "create_dupes_map (st\<lparr>opened := [], writes := []\<rparr>)"
  have s1: "stdout ?s1 = stdout st"
    by (simp add: create_dupes_map_def)
  from True show ?thesis
  proof (cases rule: generate_reports_stages[of E rp st])
    case (open_failed st2 e)
    from open_all_frameD[OF open_failed(1)] s1 open_failed(2) show ?thesis by simp
  next
    case (classify_failed st2 e)
    from open_all_frameD[OF classify_failed(1)] s1 classify_failed(3) show ?thesis by simp
  next
    case (dupes_done st2 st4 e4)
    from dupes_done(3)
    have "st4 = st2\<lparr>writes := writes st2 @ fst (classify_rows E (file_path_dict st2))\<rparr>"
      by (simp add: dupes_loop_dead)
    with open_all_frameD[OF dupes_done(1)] s1 dupes_done(4) show ?thesis by simp
  qed
qed

text \<open>
  No call writes through the fourth handle: the rows of the first loop go to the
  handle of the record's classification, which is one of the first three.
\<close>

lemma outputs_1_to_3_fourth_empty:
  "filter (\<lambda>w. fst w = fh_dupe_file_orig_in_itunes) (outputs_1_to_3 ws) = []"
  by (induction ws) (simp_all add: outputs_1_to_3_def)

lemma classify_rows_fourth_empty:
  "filter (\<lambda>w. fst w = fh_dupe_file_orig_in_itunes) (fst (classify_rows E d)) = []"
  using outputs_1_to_3_fourth_empty[of "fst (classify_rows E d)"] by simp

lemma generate_reports_fourth_empty:
  "filter (\<lambda>w. fst w = fh_dupe_file_orig_in_itunes)
     (writes (fst (generate_reports E rp st))) = []"
  by (simp add: generate_reports_writes classified_rows_def classify_rows_fourth_empty)

lemma generate_reports_checksums:
  "checksums_dict (fst (generate_reports E rp st)) =
     (if (if os_path_exists E rp then None else os_mkdir E rp) = None
      then create_dupes_loop (file_path_dict st) (checksums_dict st)
      else checksums_dict st)"
proof (cases "(if os_path_exists E rp then None else os_mkdir E rp) = None")
  case False
  then show ?thesis
    by (auto simp: generate_reports_def Let_def)
next
  case True
  let ?s1 = "create_dupes_map (st\<lparr>opened := [], writes := []\<rparr>)"
  have s1: "checksums_dict ?s1 = create_dupes_loop (file_path_dict st) (checksums_dict st)"
    by (simp add: create_dupes_map_def)
  from True show ?thesis
  proof (cases rule: generate_reports_stages[of E rp st])
    case (open_failed st2 e)
    from open_all_frameD[OF open_failed(1)] s1 open_failed(2) True show ?thesis by simp
  next
    case (classify_failed st2 e)
    from open_all_frameD[OF classify_failed(1)] s1 classify_failed(3) True show ?thesis by simp
  next
    case (dupes_done st2 st4 e4)
    from open_all_frameD[OF dupes_done(1)] s1 dupes_loop_frameD[OF dupes_done(3)]
      dupes_done(4) True
    show ?thesis by simp
  qed
qed

lemma store_wf_process_file:
  "store_wf (file_path_dict st) \<Longrightarrow> store_wf (file_path_dict (fst (process_file E f st)))"
  by (auto simp: store_wf_def process_file_store record_wf_def FileAttributes_init_def
      intro!: list_all_update split: sum.splits)

lemma store_wf_run_tasks:
  "store_wf (file_path_dict st) \<Longrightarrow> store_wf (file_path_dict (run_tasks E fs st))"
  by (induction fs arbitrary: st) (simp_all add: store_wf_process_file)

lemma merge_entry_store_cases:
  "file_path_dict (merge_entry E k d st) = file_path_dict st \<or>
   (\<exists>u r. (r = FileAttributes_init \<or> map_of (file_path_dict st) u = Some r) \<and>
      file_path_dict (merge_entry E k d st) =
        AList.update u (r\<lparr>itunes_file_path := Some u, itunes_key := k\<rparr>) (file_path_dict st))"
  by (auto simp: merge_entry_def Let_def update_conv' split: option.splits)

lemma store_wf_merge_entry:
  assumes "store_wf (file_path_dict st)"
  shows "store_wf (file_path_dict (merge_entry E k d st))"
proof -
  from merge_entry_store_cases[of E k d st] show ?thesis
  proof
    assume "file_path_dict (merge_entry E k d st) = file_path_dict st"
    with assms show ?thesis by simp
  next
    assume "\<exists>u r. (r = FileAttributes_init \<or> map_of (file_path_dict st) u = Some r) \<and>
      file_path_dict (merge_entry E k d st) =
        AList.update u (r\<lparr>itunes_file_path := Some u, itunes_key := k\<rparr>) (file_path_dict st)"
    then obtain u r where
      r: "r = FileAttributes_init \<or> map_of (file_path_dict st) u = Some r" and
      eq: "file_path_dict (merge_entry E k d st) =
        AList.update u (r\<lparr>itunes_file_path := Some u, itunes_key := k\<rparr>) (file_path_dict st)"
      by blast
    from r have "(file_path r \<noteq> None \<longrightarrow> file_name r \<noteq> None)
        \<and> (checksum r \<noteq> None \<longrightarrow> file_path r \<noteq> None)"
    proof
      assume "r = FileAttributes_init"
      then show ?thesis by (simp add: FileAttributes_init_def)
    next
      assume "map_of (file_path_dict st) u = Some r"
      then have "(u, r) \<in> set (file_path_dict st)" by (rule map_of_SomeD)
      with assms show ?thesis
        by (auto simp: store_wf_def list_all_iff record_wf_def)
    qed
    then have "record_wf (r\<lparr>itunes_file_path := Some u, itunes_key := k\<rparr>)"
      by (simp add: record_wf_def)
    with assms show ?thesis
      unfolding eq store_wf_def by (intro list_all_update) simp_all
  qed
qed

lemma store_wf_node_loop:
  "store_wf (file_path_dict st) \<Longrightarrow> store_wf (file_path_dict (snd (node_loop E ds k st)))"
  by (induction ds arbitrary: k st) (simp_all add: store_wf_merge_entry)

lemma store_wf_tracks_loop:
  "store_wf (file_path_dict st) \<Longrightarrow> store_wf (file_path_dict (snd (tracks_loop E ns k st)))"
proof (induction ns arbitrary: k st)
  case Nil
  then show ?case by simp
next
  case (Cons n ns)
  from Cons.prems have "store_wf (file_path_dict (snd (node_loop E (iter_elem n) k st)))"
    by (rule store_wf_node_loop)
  then show ?case
    by (auto simp: Cons.IH split: prod.splits)
qed

lemma store_wf_scan_and_parse:
  "store_wf (file_path_dict st) \<Longrightarrow>
     store_wf (file_path_dict
       (read_itunes_library E x (calculate_all_checksums E d st)))"
  by (simp add: read_itunes_library_def calculate_all_checksums_def store_wf_tracks_loop
      store_wf_run_tasks split: sum.splits)

text \<open>
  The keys of the store stay distinct under both writers, so that a key stands for one
  object, as the model of the identity test takes it.
\<close>

lemma distinct_keys_process_file:
  "distinct (map fst (file_path_dict st)) \<Longrightarrow>
     distinct (map fst (file_path_dict (fst (process_file E f st))))"
  by (simp add: process_file_store distinct_update split: sum.splits)

lemma distinct_keys_run_tasks:
  "distinct (map fst (file_path_dict st)) \<Longrightarrow>
     distinct (map fst (file_path_dict (run_tasks E fs st)))"
  by (induction fs arbitrary: st) (simp_all add: distinct_keys_process_file)

lemma distinct_keys_merge_entry:
  "distinct (map fst (file_path_dict st)) \<Longrightarrow>
     distinct (map fst (file_path_dict (merge_entry E k d st)))"
  using merge_entry_store_cases[of E k d st] by (auto simp: distinct_update)

lemma distinct_keys_node_loop:
  "distinct (map fst (file_path_dict st)) \<Longrightarrow>
     distinct (map fst (file_path_dict (snd (node_loop E ds k st))))"
  by (induction ds arbitrary: k st) (simp_all add: distinct_keys_merge_entry)

lemma distinct_keys_tracks_loop:
  "distinct (map fst (file_path_dict st)) \<Longrightarrow>
     distinct (map fst (file_path_dict (snd (tracks_loop E ns k st))))"
proof (induction ns arbitrary: k st)
  case Nil
  then show ?case by simp
next
  case (Cons n ns)
  from Cons.prems
  have "distinct (map fst (file_path_dict (snd (node_loop E (iter_elem n) k st))))"
    by (rule distinct_keys_node_loop)
  then show ?case
    by (auto simp: Cons.IH split: prod.splits)
qed

lemma distinct_keys_scan_and_parse:
  "distinct (map fst (file_path_dict st)) \<Longrightarrow>
     distinct (map fst (file_path_dict
       (read_itunes_library E x (calculate_all_checksums E d st))))"
  by (simp add: read_itunes_library_def calculate_all_checksums_def distinct_keys_tracks_loop
      distinct_keys_run_tasks split: sum.splits)

text \<open>
  The first three outputs partition the store: when the directory and the files can be
  made, every record of a store of well-formed records is written once, in the order
  of the store, through the handle of its classification.
\<close>

lemma classification_partition:
  assumes "store_wf (file_path_dict st)"
    and "(if os_path_exists E rp then None else os_mkdir E rp) = None"
    and "list_all (\<lambda>(h, p). open_w E p = None) (report_files rp)"
  shows "outputs_1_to_3 (writes (fst (generate_reports E rp st))) =
           map (\<lambda>(k, r). (classification r, report_row E r)) (file_path_dict st)"
  using assms
  by (simp add: generate_reports_outputs classified_rows_def open_all_ok classify_rows_wf)

text \<open>
  A run with \<^verbatim>\<open>--cache /L.pkl\<close> hands the store of the cache file to the report
  generator, and ends with the exception of the handler of line 165.
\<close>

lemma cached_run:
  "file_path_dict (fst (main example_env [''--xml'', ''/L.xml'', ''--cache'', ''/L.pkl'']))
     = cached_store \<and>
   snd (main example_env [''--xml'', ''/L.xml'', ''--cache'', ''/L.pkl'']) =
     Uncaught (UnboundLocalError
       ''cannot access local variable details where it is not associated with a value'')"
proof -
  have h1: "parse_args example_env [''--xml'', ''/L.xml'', ''--cache'', ''/L.pkl'']
     = Parsed \<lparr>itunes_dir = [], xml_file = ''/L.xml'', cache_file = ''/L.pkl''\<rparr>"
    by (simp add: example_env_def)
  have h2: "pickle_load example_env ''/L.pkl'' = Inr cached_store"
    by (simp add: example_env_def)
  show ?thesis
    by (simp add: main_def startswith_def h1 h2 Let_def generate_reports_def example_env_fields
        report_files_def create_dupes_map_def cached_store_def member_a_def member_b_def
        classify_item_def quoted_pair_def path_leaf_def initial_state_def print_line_def
        list_len_method_def)
qed

text \<open>
  Claim C1, at the store of the example cache file. \<^verbatim>\<open>a.mp3\<close> and \<^verbatim>\<open>b.mp3\<close> have one checksum and
  \<^verbatim>\<open>b.mp3\<close> is in the catalog, so \<^verbatim>\<open>a.mp3\<close> is a duplicate that is not the original.
  Each record is written once to the output of its classification, but nothing is
  written to the fourth file: the call of \<^verbatim>\<open>len\<close> on the first group raises, and the
  handler raises in turn.
\<close>

theorem duplicate_never_written:
  "checksums_dict (fst (generate_reports example_env ''./output_L_xml/'' reconciled_state)) =
     [(''4038471504'',
       [(''/m/a.mp3'',
         \<lparr>file_path = Some ''/m/a.mp3'', file_name = Some ''a.mp3'',
            checksum = Some ''4038471504'', itunes_key = KeyInt (- 1),
            itunes_file_path = None\<rparr>),
        (''/m/b.mp3'',
         \<lparr>file_path = Some ''/m/b.mp3'', file_name = Some ''b.mp3'',
            checksum = Some ''4038471504'', itunes_key = KeyInt (- 1),
            itunes_file_path = Some ''/m/b.mp3''\<rparr>)])] \<and>
   writes (fst (generate_reports example_env ''./output_L_xml/'' reconciled_state)) =
     [(fh_not_in_itunes_db, [DQ] @ ''a.mp3'' @ [DQ] @ '','' @ [DQ] @ ''/m/a.mp3'' @ [DQ, NL]),
      (fh_file_in_itunes_db, [DQ] @ ''b.mp3'' @ [DQ] @ '','' @ [DQ] @ ''/m/b.mp3'' @ [DQ, NL])] \<and>
   snd (generate_reports example_env ''./output_L_xml/'' reconciled_state) =
     Some (UnboundLocalError
       ''cannot access local variable details where it is not associated with a value'')"
  by (simp add: generate_reports_def reconciled_store reconciled_checksums
      example_env_fields report_files_def
      create_dupes_map_def classify_item_def quoted_pair_def path_leaf_def
      split_at_last_slash_def list_len_method_def Let_def)

text \<open>
  Claim C2, at a store with three files of one content, of which \<^verbatim>\<open>b.mp3\<close> and
  \<^verbatim>\<open>c.mp3\<close> are in the catalog. The three records are one group with two
  catalog-linked members, but the group is not examined: the call of \<^verbatim>\<open>len\<close> on its
  member list raises, which is the defect of line 152 that decides claim C1 as well.
  No warning that names \<^verbatim>\<open>b.mp3\<close> and \<^verbatim>\<open>c.mp3\<close> is printed (nothing is printed), no
  member is reported as a duplicate (the writes are the three rows of the first loop),
  and the call ends with the exception of the handler.
\<close>

theorem group_with_two_linked_members_not_examined:
  "checksums_dict (fst (generate_reports example_env ''./output_L_xml/'' two_linked_state)) =
     [(''4038471504'', [member_b, member_a, member_c])] \<and>
   catalog_linked [member_b, member_a, member_c] = [member_b, member_c] \<and>
   list_len_method [member_b, member_a, member_c] =
     Inl (AttributeError ''list object has no attribute len'') \<and>
   stdout (fst (generate_reports example_env ''./output_L_xml/'' two_linked_state)) = [] \<and>
   writes (fst (generate_reports example_env ''./output_L_xml/'' two_linked_state)) =
     [(fh_file_in_itunes_db, [DQ] @ ''b.mp3'' @ [DQ] @ '','' @ [DQ] @ ''/m/b.mp3'' @ [DQ, NL]),
      (fh_not_in_itunes_db, [DQ] @ ''a.mp3'' @ [DQ] @ '','' @ [DQ] @ ''/m/a.mp3'' @ [DQ, NL]),
      (fh_file_in_itunes_db, [DQ] @ ''c.mp3'' @ [DQ] @ '','' @ [DQ] @ ''/m/c.mp3'' @ [DQ, NL])] \<and>
   snd (generate_reports example_env ''./output_L_xml/'' two_linked_state) =
     Some (UnboundLocalError
       ''cannot access local variable details where it is not associated with a value'')"
  by (simp add: generate_reports_def two_linked_state_def initial_state_def
      member_a_def member_b_def member_c_def catalog_linked_def
      example_env_fields report_files_def
      create_dupes_map_def classify_item_def quoted_pair_def path_leaf_def
      split_at_last_slash_def list_len_method_def Let_def)

text \<open>
  Claim C4, at a store with a file that is not in the catalog and a catalog entry
  without a file. The handles of the first and the second output are opened on one
  path, \<^verbatim>\<open>not_in_itunes.csv\<close>, and a row of each classification is written to it.
\<close>

theorem two_outputs_one_file:
  "opened (fst (generate_reports example_env ''./output_L_xml/'' missing_state)) =
     [(fh_not_in_itunes_db, ''./output_L_xml/not_in_itunes.csv''),
      (fh_missing_file, ''./output_L_xml/not_in_itunes.csv''),
      (fh_file_in_itunes_db, ''./output_L_xml/file_in_itunes.csv''),
      (fh_dupe_file_orig_in_itunes, ''./output_L_xml/dupe_file_orig_in_itunes.csv'')] \<and>
   writes (fst (generate_reports example_env ''./output_L_xml/'' missing_state)) =
     [(fh_not_in_itunes_db, [DQ] @ ''a.mp3'' @ [DQ] @ '','' @ [DQ] @ ''/m/a.mp3'' @ [DQ, NL]),
      (fh_missing_file, [DQ] @ ''b.mp3'' @ [DQ] @ '','' @ [DQ] @ ''/m/b.mp3'' @ [DQ, NL])]"
  by (simp add: generate_reports_def missing_store example_env_fields report_files_def
      create_dupes_map_def classify_item_def quoted_pair_def path_leaf_def
      split_at_last_slash_def list_len_method_def Let_def)

section \<open>Running the report generator twice\<close>

lemma create_dupes_loop_lookup:
  "map_of (create_dupes_loop d cd) c =
     (if members_with c d = [] then map_of cd c
      else Some ((case map_of cd c of None \<Rightarrow> [] | Some ms \<Rightarrow> ms) @ members_with c d))"
proof (induction d arbitrary: cd)
  case Nil
  then show ?case by (simp add: members_with_def)
next
  case (Cons a d)
  obtain k r where a: "a = (k, r)" by (cases a)
  show ?case
  proof (cases "checksum r")
    case None
    with a Cons.IH[of cd] show ?thesis by (simp add: members_with_def)
  next
    case (Some c')
    with a Cons.IH[of "AList.update c'
        ((case map_of cd c' of None \<Rightarrow> [] | Some ms \<Rightarrow> ms) @ [(k, r)]) cd"]
    show ?thesis
      by (auto simp: members_with_def update_conv' split: option.splits)
  qed
qed

text \<open>
  Claim C8, as amended. A second run of the report generator on the state the first
  run left makes the same writes as the first: the same rows through the same handles
  in the same order, for all four outputs. The groups are not built anew: from an
  empty \<^verbatim>\<open>checksums_dict\<close>, the member list of every checksum after the second run is
  the list after the first run, twice.
\<close>

theorem second_run_same_rows_longer_groups:
  "writes (fst (generate_reports E rp (fst (generate_reports E rp st))))
     = writes (fst (generate_reports E rp st))
   \<and> (checksums_dict st = [] \<longrightarrow>
        map_of (checksums_dict (fst (generate_reports E rp (fst (generate_reports E rp st))))) c
          = map_option (\<lambda>ms. ms @ ms)
              (map_of (checksums_dict (fst (generate_reports E rp st))) c))"
  by (simp add: generate_reports_writes generate_reports_checksums create_dupes_loop_lookup)

text \<open>The amended claim at the store of the example cache file.\<close>

theorem second_run_same_rows_longer_groups_witness:
  "checksums_dict reconciled_state = [] \<and>
   writes (fst (generate_reports example_env ''./output_L_xml/''
       (fst (generate_reports example_env ''./output_L_xml/'' reconciled_state))))
     = writes (fst (generate_reports example_env ''./output_L_xml/'' reconciled_state)) \<and>
   map_of (checksums_dict (fst (generate_reports example_env ''./output_L_xml/''
       (fst (generate_reports example_env ''./output_L_xml/'' reconciled_state)))))
       ''4038471504''
     = map_option (\<lambda>ms. ms @ ms)
         (map_of (checksums_dict (fst (generate_reports example_env ''./output_L_xml/''
            reconciled_state))) ''4038471504'')"
  using second_run_same_rows_longer_groups[of example_env "''./output_L_xml/''"
      reconciled_state "''4038471504''"] reconciled_checksums
  by blast

text \<open>
  Claim C8 as stated fails for a store with one file: after the first run the list of
  its checksum has one member, after the second run it has two (the same record
  twice), which is a list of more than one member.
\<close>

theorem second_run_makes_unique_file_a_group:
  "checksums_dict single_state = [] \<and>
   checksums_dict (fst (generate_reports example_env ''./output_L_xml/'' single_state)) =
     [(''4038471504'', [member_a])] \<and>
   checksums_dict (fst (generate_reports example_env ''./output_L_xml/''
       (fst (generate_reports example_env ''./output_L_xml/'' single_state)))) =
     [(''4038471504'', [member_a, member_a])] \<and>
   map (\<lambda>(c, ms). length ms)
     (checksums_dict (fst (generate_reports example_env ''./output_L_xml/'' single_state)))
     = [1] \<and>
   map (\<lambda>(c, ms). length ms)
     (checksums_dict (fst (generate_reports example_env ''./output_L_xml/''
       (fst (generate_reports example_env ''./output_L_xml/'' single_state)))))
     = [2]"
  by (simp add: generate_reports_checksums example_env_fields single_store member_a_def)

section \<open>The snapshot\<close>

lemma save_cache_effect:
  "save_cache E x st =
     st\<lparr>stdout := stdout st @ [''Saving cached data to '' @ snapshot_path x]
            @ (case snapshot_error E (snapshot_path x) (file_path_dict st) of
                 None \<Rightarrow> [] | Some detail \<Rightarrow> [exception_line detail]),
        io_log := io_log st @ OpenWB (snapshot_path x)
            # (if open_wb E (snapshot_path x) = None
               then [PickleDump (snapshot_path x) (file_path_dict st)] else [])\<rparr>"
  by (simp add: save_cache_def snapshot_path_def snapshot_error_def print_line_def Let_def
      split: option.splits)

lemma str_replace_char:
  "str_replace [a] [b] s = map (\<lambda>c. if c = a then b else c) s"
  by (induction s) auto

lemma str_replace_extension:
  "CHR ''.'' \<notin> set base \<Longrightarrow> str_replace ''.xml'' ''.pkl'' (base @ ''.xml'') = base @ ''.pkl''"
  by (induction base) auto

text \<open>
  For a catalog path that ends in \<^verbatim>\<open>.xml\<close> and has no other dot, the snapshot path
  is the path with its spaces replaced and the extension \<^verbatim>\<open>.pkl\<close>.
\<close>

lemma snapshot_path_extension:
  "CHR ''.'' \<notin> set base \<Longrightarrow>
     snapshot_path (base @ ''.xml'') =
       map (\<lambda>c. if c = CHR '' '' then CHR ''_'' else c) base @ ''.pkl''"
  by (simp add: snapshot_path_def str_replace_extension str_replace_char)

text \<open>
  Claim C9. A run without cache file is the scan, the catalog pass, the snapshot and
  then the report generator, applied to the state the snapshot leaves. The snapshot
  opens the path made from the catalog path (\<^verbatim>\<open>.xml\<close> replaced by \<^verbatim>\<open>.pkl\<close>, then
  spaces by underscores) and dumps the whole store; it does not change the store;
  and an exception of the opening or the dump is printed, after which the run goes on
  to the reports all the same.
\<close>

theorem snapshot_attempted_before_reports:
  assumes "parse_args E (good_args argv) = Parsed args" and "cache_file args = []"
  shows "let walk_dir = (if itunes_dir args = []
               then ''/Volumes/Raid/iTunes/iTunes Music/Music/Wynonna Judd/Wynonna/''
               else itunes_dir args);
             xml_path = (if xml_file args = []
               then ''/Volumes/Raid/Library copy.xml'' else xml_file args);
             st = read_itunes_library E xml_path
                    (calculate_all_checksums E walk_dir
                       (print_line (''XML Library file: '' @ xml_path)
                          (print_line (''iTunes Library root directory: '' @ walk_dir)
                             initial_state)));
             p = str_replace '' '' ''_'' (str_replace ''.xml'' ''.pkl'' xml_path)
         in main E argv =
              finish (generate_reports E (report_directory E xml_path) (save_cache E xml_path st))
          \<and> file_path_dict (save_cache E xml_path st) = file_path_dict st
          \<and> io_log (save_cache E xml_path st) =
              io_log st @ OpenWB p
                # (if open_wb E p = None then [PickleDump p (file_path_dict st)] else [])
          \<and> stdout (save_cache E xml_path st) =
              stdout st @ [''Saving cached data to '' @ p]
                @ (case snapshot_error E p (file_path_dict st) of
                     None \<Rightarrow> [] | Some detail \<Rightarrow> [exception_line detail])"
  using assms
  by (simp add: main_def Let_def save_cache_effect snapshot_path_def)

lemma readonly_parse:
  "parse_args readonly_env (good_args [''--xml'', ''/L.xml'', ''--dir'', ''/m''])
     = Parsed \<lparr>itunes_dir = ''/m'', xml_file = ''/L.xml'', cache_file = []\<rparr>"
  by (simp add: readonly_env_def example_env_def startswith_def)

text \<open>The claim at the example world where the snapshot file cannot be opened.\<close>

theorem snapshot_attempted_before_reports_witness:
  "parse_args readonly_env (good_args [''--xml'', ''/L.xml'', ''--dir'', ''/m''])
     = Parsed \<lparr>itunes_dir = ''/m'', xml_file = ''/L.xml'', cache_file = []\<rparr> \<and>
   cache_file \<lparr>itunes_dir = ''/m'', xml_file = ''/L.xml'', cache_file = []\<rparr> = [] \<and>
   (let st = read_itunes_library readonly_env ''/L.xml''
               (calculate_all_checksums readonly_env ''/m''
                  (print_line (''XML Library file: '' @ ''/L.xml'')
                     (print_line (''iTunes Library root directory: '' @ ''/m'')
                        initial_state)))
    in main readonly_env [''--xml'', ''/L.xml'', ''--dir'', ''/m''] =
         finish (generate_reports readonly_env (report_directory readonly_env ''/L.xml'')
                   (save_cache readonly_env ''/L.xml'' st))
     \<and> file_path_dict (save_cache readonly_env ''/L.xml'' st) = file_path_dict st
     \<and> io_log (save_cache readonly_env ''/L.xml'' st) = io_log st @ [OpenWB ''/L.pkl'']
     \<and> stdout (save_cache readonly_env ''/L.xml'' st) =
         stdout st @ [''Saving cached data to /L.pkl'', ''Exception: Permission denied''])"
proof -
  have h2: "cache_file \<lparr>itunes_dir = ''/m'', xml_file = ''/L.xml'', cache_file = []\<rparr> = []"
    by simp
  have p: "str_replace '' '' ''_'' (str_replace ''.xml'' ''.pkl'' ''/L.xml'') = ''/L.pkl''"
    by simp
  have e: "open_wb readonly_env ''/L.pkl'' = Some (LibraryError ''Permission denied'')"
    by (simp add: readonly_env_def)
  from snapshot_attempted_before_reports[OF readonly_parse h2] readonly_parse h2 p e
  show ?thesis
    by (simp add: Let_def snapshot_error_def exception_line_def)
qed

end
